theory Spec2Isabelle
  imports Main "HOL-Library.Word"
begin


section \<open>InvoiceEscrow: the contract of hardhat/contracts/InvoiceEscrow.sol\<close>

text \<open>
  The contract keeps a mapping from invoice ids to invoice structs and a counter that
  mints the ids. Every external function is modelled as a function from the ledger (the
  contract's storage and balance) to either an error or the new ledger. A failed
  \<^verbatim>\<open>require\<close> reverts the whole call, so an error carries no ledger: the ledger after
  a failed call is the ledger before it (see \<open>commit\<close>).
\<close>

subsection \<open>Data\<close>

type_synonym address = "160 word"
type_synonym uint256 = "256 word"

datatype InvoiceStatus = CREATED | FUNDED | COMPLETED | PAID | CANCELLED

record Invoice =
  invoiceId :: uint256
  client :: address
  freelancer :: address
  amount :: uint256
  description :: string
  status :: InvoiceStatus

text \<open>The value every slot of a Solidity mapping holds before it is written.\<close>

definition emptyInvoice :: Invoice where
  "emptyInvoice =
     \<lparr>invoiceId = 0, client = 0, freelancer = 0, amount = 0, description = [], status = CREATED\<rparr>"

text \<open>
  Ghost marks: which function wrote an invoice's status. At each status write the mark
  and the status written are appended to the invoice's \<open>trail\<close>, which the contract
  never reads.
\<close>

datatype mark = Made | Funded | Completed | Released | Cancelled | Resolved bool

text \<open>
  The ledger: the two storage variables of the contract, the owner kept by the Ownable
  base contract, the contract's own address and its balance in wei. Three ghost fields
  record history and are never read by any operation: \<open>trail\<close> (the status writes of
  each invoice, oldest first, each with the function that made it), \<open>payouts\<close> (the
  value transfers made out of the contract for each invoice, as recipient and amount,
  oldest first) and \<open>minted\<close> (the ids that the calls of \<open>createInvoice\<close> have returned,
  in call order). They are part of the ledger, so a call that reverts leaves no entry.
\<close>

record ledger =
  invoices :: "uint256 \<Rightarrow> Invoice"
  invoiceCounter :: uint256
  owner :: address
  self :: address
  balance :: nat
  trail :: "uint256 \<Rightarrow> (mark \<times> InvoiceStatus) list"
  payouts :: "uint256 \<Rightarrow> (address \<times> uint256) list"
  minted :: "uint256 list"

text \<open>
  The errors of the source, one per \<^verbatim>\<open>require\<close> message:
  \<^item> \<open>InvalidFreelancer\<close>: "invalid freelancer address";
  \<^item> \<open>ZeroAmount\<close>: "amount must be greater than zero";
  \<^item> \<open>EmptyDescription\<close>: "description cannot be empty";
  \<^item> \<open>CounterOverflow\<close>: the panic of the checked increment \<^verbatim>\<open>_invoiceCounter++\<close>;
  \<^item> \<open>DoesNotExist\<close>: "invoice does not exist";
  \<^item> \<open>OnlyClientCanFund\<close>, \<open>OnlyClientCanRelease\<close>, \<open>OnlyClientCanCancel\<close>:
    "only client can fund invoice", "... release payment", "... cancel invoice";
  \<^item> \<open>OnlyFreelancerCanComplete\<close>: "only freelancer can mark as completed";
  \<^item> \<open>MustBeCreated\<close>, \<open>MustBeFunded\<close>, \<open>MustBeCompleted\<close>, \<open>MustBeFundedOrCompleted\<close>:
    "invoice must be in CREATED status", "... FUNDED status", "... COMPLETED status",
    "invoice must be FUNDED or COMPLETED for dispute resolution";
  \<^item> \<open>AmountMismatch\<close>: "sent amount must match invoice amount";
  \<^item> \<open>PaymentTransferFailed\<close>: "payment transfer failed";
  \<^item> \<open>DisputeTransferFailed\<close>: "dispute resolution transfer failed";
  \<^item> \<open>OwnableUnauthorizedAccount\<close>, \<open>OwnableInvalidOwner\<close>: the errors of the Ownable base.
\<close>

datatype error =
    InvalidFreelancer
  | ZeroAmount
  | EmptyDescription
  | CounterOverflow
  | DoesNotExist
  | OnlyClientCanFund
  | OnlyClientCanRelease
  | OnlyClientCanCancel
  | OnlyFreelancerCanComplete
  | MustBeCreated
  | MustBeFunded
  | MustBeCompleted
  | MustBeFundedOrCompleted
  | AmountMismatch
  | PaymentTransferFailed
  | DisputeTransferFailed
  | OwnableUnauthorizedAccount address
  | OwnableInvalidOwner address

text \<open>The error kinds of the specification, and the kind of each error of the source.\<close>

datatype kind =
  NotFound | InvalidArgument | Unauthorized | InvalidState | TransferFailed | ArithmeticOverflow

fun kind_of :: "error \<Rightarrow> kind" where
  "kind_of InvalidFreelancer = InvalidArgument"
| "kind_of ZeroAmount = InvalidArgument"
| "kind_of EmptyDescription = InvalidArgument"
| "kind_of CounterOverflow = ArithmeticOverflow"
| "kind_of DoesNotExist = NotFound"
| "kind_of OnlyClientCanFund = Unauthorized"
| "kind_of OnlyClientCanRelease = Unauthorized"
| "kind_of OnlyClientCanCancel = Unauthorized"
| "kind_of OnlyFreelancerCanComplete = Unauthorized"
| "kind_of MustBeCreated = InvalidState"
| "kind_of MustBeFunded = InvalidState"
| "kind_of MustBeCompleted = InvalidState"
| "kind_of MustBeFundedOrCompleted = InvalidState"
| "kind_of AmountMismatch = InvalidArgument"
| "kind_of PaymentTransferFailed = TransferFailed"
| "kind_of DisputeTransferFailed = TransferFailed"
| "kind_of (OwnableUnauthorizedAccount a) = Unauthorized"
| "kind_of (OwnableInvalidOwner a) = InvalidArgument"

text \<open>The ledger after a call: a reverted call leaves the ledger as it was.\<close>

definition commit :: "ledger \<Rightarrow> error + ledger \<Rightarrow> ledger" where
  "commit s r = (case r of Inl e \<Rightarrow> s | Inr s' \<Rightarrow> s')"

subsection \<open>Construction\<close>

text \<open>
  Modelled from the spec: the Ownable base contract (an imported library, not among the
  sources) holds "a single privileged account identity, set once at ledger construction,
  ... never null"; its constructor rejects the zero address and its \<^verbatim>\<open>onlyOwner\<close>
  modifier rejects every caller other than the owner. The constructor of the contract
  itself only sets the counter to 0. \<open>this\<close> is the address the contract is deployed at.
\<close>

definition constructor :: "address \<Rightarrow> address \<Rightarrow> error + ledger" where
  "constructor this initialOwner =
     (if initialOwner = 0 then Inl (OwnableInvalidOwner 0)
      else Inr \<lparr>invoices = (\<lambda>i. emptyInvoice), invoiceCounter = 0, owner = initialOwner,
                self = this, balance = 0, trail = (\<lambda>i. []), payouts = (\<lambda>i. []),
                minted = []\<rparr>)"

subsection \<open>The value transfer\<close>

text \<open>
  A status write \<^verbatim>\<open>invoice.status = st\<close> through the storage pointer
  \<^verbatim>\<open>invoices[i]\<close>; the ghost mark \<open>m\<close> names the writing function.
\<close>

definition write_status :: "uint256 \<Rightarrow> InvoiceStatus \<Rightarrow> mark \<Rightarrow> ledger \<Rightarrow> ledger" where
  "write_status i st m s =
     s\<lparr>invoices := (invoices s)(i := (invoices s i)\<lparr>status := st\<rparr>),
       trail := (trail s)(i := trail s i @ [(m, st)])\<rparr>"

text \<open>
  \<^verbatim>\<open>recipient.call{value: val}("")\<close>, made on behalf of invoice \<open>i\<close>. The call fails when
  the contract holds less than \<open>val\<close>. Otherwise the value moves and the recipient's code
  runs: \<open>callee\<close> is that code, a function from the ledger it finds to \<open>None\<close> (it reverts,
  which undoes the transfer and everything it did) or to the ledger it leaves behind (it
  may have called back into the contract). When the recipient is the contract itself, the
  code that runs is the empty \<^verbatim>\<open>receive()\<close> and the value stays where it is.
\<close>

definition call_value ::
  "(ledger \<Rightarrow> ledger option) \<Rightarrow> uint256 \<Rightarrow> address \<Rightarrow> uint256 \<Rightarrow> ledger \<Rightarrow> ledger option" where
  "call_value callee i recipient val s =
     (if balance s < unat val then None
      else let s1 = s\<lparr>payouts := (payouts s)(i := payouts s i @ [(recipient, val)])\<rparr> in
        if recipient = self s then Some s1
        else callee (s1\<lparr>balance := balance s - unat val\<rparr>))"

subsection \<open>The external functions\<close>

definition createInvoice ::
  "address \<Rightarrow> address \<Rightarrow> uint256 \<Rightarrow> string \<Rightarrow> ledger \<Rightarrow> error + (uint256 \<times> ledger)" where
  "createInvoice sender fl amt descr s =
     (if fl = 0 then Inl InvalidFreelancer
      else if \<not> 0 < amt then Inl ZeroAmount
      else if \<not> 0 < length descr then Inl EmptyDescription
      else if invoiceCounter s = - 1 then Inl CounterOverflow
      else let i = invoiceCounter s in
        Inr (i, s\<lparr>invoiceCounter := invoiceCounter s + 1,
                   invoices := (invoices s)(i :=
                     \<lparr>invoiceId = i, client = sender, freelancer = fl, amount = amt,
                      description = descr, status = CREATED\<rparr>),
                   trail := (trail s)(i := trail s i @ [(Made, CREATED)]),
                   minted := minted s @ [i]\<rparr>))"

text \<open>\<open>val\<close> is \<^verbatim>\<open>msg.value\<close>; \<open>fundInvoice\<close> is the only payable function.\<close>

definition fundInvoice :: "address \<Rightarrow> uint256 \<Rightarrow> uint256 \<Rightarrow> ledger \<Rightarrow> error + ledger" where
  "fundInvoice sender val i s =
     (let invoice = invoices s i in
      if client invoice = 0 then Inl DoesNotExist
      else if client invoice \<noteq> sender then Inl OnlyClientCanFund
      else if status invoice \<noteq> CREATED then Inl MustBeCreated
      else if val \<noteq> amount invoice then Inl AmountMismatch
      else Inr (write_status i FUNDED Funded (s\<lparr>balance := balance s + unat val\<rparr>)))"

definition markInvoiceCompleted :: "address \<Rightarrow> uint256 \<Rightarrow> ledger \<Rightarrow> error + ledger" where
  "markInvoiceCompleted sender i s =
     (let invoice = invoices s i in
      if freelancer invoice = 0 then Inl DoesNotExist
      else if freelancer invoice \<noteq> sender then Inl OnlyFreelancerCanComplete
      else if status invoice \<noteq> FUNDED then Inl MustBeFunded
      else Inr (write_status i COMPLETED Completed s))"

definition releasePayment ::
  "(ledger \<Rightarrow> ledger option) \<Rightarrow> address \<Rightarrow> uint256 \<Rightarrow> ledger \<Rightarrow> error + ledger" where
  "releasePayment callee sender i s =
     (let invoice = invoices s i in
      if client invoice = 0 then Inl DoesNotExist
      else if client invoice \<noteq> sender then Inl OnlyClientCanRelease
      else if status invoice \<noteq> COMPLETED then Inl MustBeCompleted
      else let amt = amount invoice; fl = freelancer invoice;
               s1 = write_status i PAID Released s
        in case call_value callee i fl amt s1 of
             None \<Rightarrow> Inl PaymentTransferFailed
           | Some s2 \<Rightarrow> Inr s2)"

definition cancelInvoice :: "address \<Rightarrow> uint256 \<Rightarrow> ledger \<Rightarrow> error + ledger" where
  "cancelInvoice sender i s =
     (let invoice = invoices s i in
      if client invoice = 0 then Inl DoesNotExist
      else if client invoice \<noteq> sender then Inl OnlyClientCanCancel
      else if status invoice \<noteq> CREATED then Inl MustBeCreated
      else Inr (write_status i CANCELLED Cancelled s))"

text \<open>The \<^verbatim>\<open>onlyOwner\<close> modifier runs before the body of the function.\<close>

definition resolveDispute ::
  "(ledger \<Rightarrow> ledger option) \<Rightarrow> address \<Rightarrow> uint256 \<Rightarrow> bool \<Rightarrow> ledger \<Rightarrow> error + ledger" where
  "resolveDispute callee sender i releaseToFreelancer s =
     (if owner s \<noteq> sender then Inl (OwnableUnauthorizedAccount sender)
      else let invoice = invoices s i in
        if client invoice = 0 then Inl DoesNotExist
        else if \<not> (status invoice = FUNDED \<or> status invoice = COMPLETED)
          then Inl MustBeFundedOrCompleted
        else let amt = amount invoice;
                 recipient = (if releaseToFreelancer then freelancer invoice else client invoice);
                 s1 = (if releaseToFreelancer then write_status i PAID (Resolved True) s
                       else write_status i CANCELLED (Resolved False) s)
          in case call_value callee i recipient amt s1 of
               None \<Rightarrow> Inl DisputeTransferFailed
             | Some s2 \<Rightarrow> Inr s2)"

definition getInvoice :: "uint256 \<Rightarrow> ledger \<Rightarrow> error + Invoice" where
  "getInvoice i s =
     (if client (invoices s i) = 0 then Inl DoesNotExist else Inr (invoices s i))"

definition getInvoiceStatus :: "uint256 \<Rightarrow> ledger \<Rightarrow> error + InvoiceStatus" where
  "getInvoiceStatus i s =
     (if client (invoices s i) = 0 then Inl DoesNotExist else Inr (status (invoices s i)))"

definition getTotalInvoices :: "ledger \<Rightarrow> uint256" where
  "getTotalInvoices s = invoiceCounter s"

text \<open>\<^verbatim>\<open>receive() external payable {}\<close>: the contract accepts plain transfers.\<close>

definition receive :: "uint256 \<Rightarrow> ledger \<Rightarrow> error + ledger" where
  "receive val s = Inr (s\<lparr>balance := balance s + unat val\<rparr>)"

text \<open>
  Modelled from the spec: the owner is "transferable via an explicit ownership-transfer
  capability" of the Ownable base, "never null".
\<close>

definition transferOwnership :: "address \<Rightarrow> address \<Rightarrow> ledger \<Rightarrow> error + ledger" where
  "transferOwnership sender newOwner s =
     (if owner s \<noteq> sender then Inl (OwnableUnauthorizedAccount sender)
      else if newOwner = 0 then Inl (OwnableInvalidOwner 0)
      else Inr (s\<lparr>owner := newOwner\<rparr>))"

subsection \<open>Calls, re-entrancy and reachable ledgers\<close>

text \<open>
  A call to the contract is its sender, the function called with its arguments, and the
  behaviour of the account that is sent value during the call (only \<open>releasePayment\<close> and
  \<open>resolveDispute\<close> send value, once each). That behaviour is a script: the recipient
  makes any number of calls back into the contract, each with a behaviour of its own,
  survives those that revert, and in the end accepts the transfer or reverts. Calls that
  the recipient makes and then undoes, by reverting a frame of its own around them, leave
  no trace in the ledger and need no place in a script. \<open>FundInvoice i val\<close> is a call
  of \<open>fundInvoice(i)\<close> that carries the value \<open>val\<close>, and \<open>Receive val\<close> a plain transfer
  of \<open>val\<close> to the contract; the other functions are not payable and their calls carry
  no value. Gas is not modelled.
\<close>

datatype request =
    CreateInvoice address uint256 string
  | FundInvoice uint256 uint256
  | MarkInvoiceCompleted uint256
  | ReleasePayment uint256
  | CancelInvoice uint256
  | ResolveDispute uint256 bool
  | TransferOwnership address
  | Receive uint256

datatype tx = Tx address request script
  and script = Accept | Reject | Reenter tx script

definition dispatch ::
  "(ledger \<Rightarrow> ledger option) \<Rightarrow> address \<Rightarrow> request \<Rightarrow> ledger \<Rightarrow> error + ledger" where
  "dispatch callee sender req s =
     (case req of
        CreateInvoice fl amt descr \<Rightarrow> map_sum id snd (createInvoice sender fl amt descr s)
      | FundInvoice i val \<Rightarrow> fundInvoice sender val i s
      | MarkInvoiceCompleted i \<Rightarrow> markInvoiceCompleted sender i s
      | ReleasePayment i \<Rightarrow> releasePayment callee sender i s
      | CancelInvoice i \<Rightarrow> cancelInvoice sender i s
      | ResolveDispute i b \<Rightarrow> resolveDispute callee sender i b s
      | TransferOwnership newOwner \<Rightarrow> transferOwnership sender newOwner s
      | Receive val \<Rightarrow> receive val s)"

primrec exec :: "tx \<Rightarrow> ledger \<Rightarrow> error + ledger"
  and run :: "script \<Rightarrow> ledger \<Rightarrow> ledger option" where
  "exec (Tx sender req k) s = dispatch (run k) sender req s"
| "run Accept s = Some s"
| "run Reject s = None"
| "run (Reenter t k) s = run k (commit s (exec t s))"

text \<open>No call has the zero address as its sender: no account has that address.\<close>

primrec valid :: "tx \<Rightarrow> bool"
  and valid_script :: "script \<Rightarrow> bool" where
  "valid (Tx sender req k) = (sender \<noteq> 0 \<and> valid_script k)"
| "valid_script Accept = True"
| "valid_script Reject = True"
| "valid_script (Reenter t k) = (valid t \<and> valid_script k)"

text \<open>The ledgers the contract can be in: deployed, then any number of calls.\<close>

inductive reachable :: "ledger \<Rightarrow> bool" where
  deployed: "constructor this initialOwner = Inr s \<Longrightarrow> reachable s"
| called: "reachable s \<Longrightarrow> valid t \<Longrightarrow> reachable (commit s (exec t s))"

text \<open>Calls made one after the other, each committed or reverted on its own.\<close>

fun execs :: "tx list \<Rightarrow> ledger \<Rightarrow> ledger" where
  "execs [] s = s"
| "execs (t # ts) s = execs ts (commit s (exec t s))"

subsection \<open>Auxiliary notions for the proofs\<close>

text \<open>An error of a given kind of the specification.\<close>

definition fails_with :: "kind \<Rightarrow> error + 'a \<Rightarrow> bool" where
  "fails_with k r = (case r of Inl e \<Rightarrow> kind_of e = k | Inr x \<Rightarrow> False)"

text \<open>
  What a value transfer that goes through does to the ledger before the recipient's code
  runs: the payout is recorded and the value leaves (unless the recipient is the contract).
\<close>

definition pay :: "uint256 \<Rightarrow> address \<Rightarrow> uint256 \<Rightarrow> ledger \<Rightarrow> ledger" where
  "pay i r v s =
     s\<lparr>payouts := (payouts s)(i := payouts s i @ [(r, v)]),
       balance := (if r = self s then balance s else balance s - unat v)\<rparr>"

text \<open>
  The atomic effects: one successful run of one function, where a recipient of value does
  nothing but accept it. Every successful call, however deeply re-entered, is a chain of
  atomic effects (\<open>exec_run_effects\<close> below), so an invariant need only be checked on these.
\<close>

inductive effect :: "ledger \<Rightarrow> ledger \<Rightarrow> bool" where
  created: "sender \<noteq> 0 \<Longrightarrow> createInvoice sender fl amt descr s = Inr (i, s') \<Longrightarrow> effect s s'"
| funded: "fundInvoice sender val i s = Inr s' \<Longrightarrow> effect s s'"
| completed: "markInvoiceCompleted sender i s = Inr s' \<Longrightarrow> effect s s'"
| released: "releasePayment Some sender i s = Inr s' \<Longrightarrow> effect s s'"
| cancelled: "cancelInvoice sender i s = Inr s' \<Longrightarrow> effect s s'"
| resolved: "resolveDispute Some sender i b s = Inr s' \<Longrightarrow> effect s s'"
| handed: "transferOwnership sender newOwner s = Inr s' \<Longrightarrow> effect s s'"
| received: "receive val s = Inr s' \<Longrightarrow> effect s s'"

text \<open>
  The invariant. \<open>story\<close> ties the status of an invoice to the status writes and the
  payouts recorded for it; \<open>slot_ok\<close> says that a slot below the counter holds a
  complete invoice with a consistent story, and a slot at or above it is untouched.
\<close>

definition story ::
  "Invoice \<Rightarrow> (mark \<times> InvoiceStatus) list \<Rightarrow> (address \<times> uint256) list \<Rightarrow> bool" where
  "story v tr ps =
     (case status v of
        CREATED \<Rightarrow> tr = [(Made, CREATED)] \<and> ps = []
      | FUNDED \<Rightarrow> tr = [(Made, CREATED), (Funded, FUNDED)] \<and> ps = []
      | COMPLETED \<Rightarrow>
          tr = [(Made, CREATED), (Funded, FUNDED), (Completed, COMPLETED)] \<and> ps = []
      | PAID \<Rightarrow>
          (tr = [(Made, CREATED), (Funded, FUNDED), (Completed, COMPLETED), (Released, PAID)] \<or>
           tr = [(Made, CREATED), (Funded, FUNDED), (Resolved True, PAID)] \<or>
           tr = [(Made, CREATED), (Funded, FUNDED), (Completed, COMPLETED),
                 (Resolved True, PAID)]) \<and>
          ps = [(freelancer v, amount v)]
      | CANCELLED \<Rightarrow>
          tr = [(Made, CREATED), (Cancelled, CANCELLED)] \<and> ps = [] \<or>
          (tr = [(Made, CREATED), (Funded, FUNDED), (Resolved False, CANCELLED)] \<or>
           tr = [(Made, CREATED), (Funded, FUNDED), (Completed, COMPLETED),
                 (Resolved False, CANCELLED)]) \<and>
          ps = [(client v, amount v)])"

definition slot_ok :: "ledger \<Rightarrow> uint256 \<Rightarrow> bool" where
  "slot_ok s i =
     (if i < invoiceCounter s
      then invoiceId (invoices s i) = i \<and> client (invoices s i) \<noteq> 0 \<and>
           freelancer (invoices s i) \<noteq> 0 \<and> amount (invoices s i) \<noteq> 0 \<and>
           description (invoices s i) \<noteq> [] \<and>
           story (invoices s i) (trail s i) (payouts s i)
      else invoices s i = emptyInvoice \<and> trail s i = [] \<and> payouts s i = [])"

definition sound :: "ledger \<Rightarrow> bool" where
  "sound s = (\<forall>i. slot_ok s i)"

text \<open>Two invoices that differ at most in their status.\<close>

definition same_terms :: "Invoice \<Rightarrow> Invoice \<Rightarrow> bool" where
  "same_terms v w \<longleftrightarrow>
     invoiceId v = invoiceId w \<and> client v = client w \<and> freelancer v = freelancer w \<and>
     amount v = amount w \<and> description v = description w"

text \<open>
  The ledger \<open>s'\<close> is the ledger \<open>s\<close> with at most the status of invoice \<open>i\<close> rewritten:
  every other field of that invoice, every other slot of the mapping, the counter and
  the owner are as before. The balance and the ghost fields are left out.
\<close>

definition only_status :: "uint256 \<Rightarrow> ledger \<Rightarrow> ledger \<Rightarrow> bool" where
  "only_status i s s' \<longleftrightarrow>
     invoices s' = (invoices s)(i := (invoices s i)\<lparr>status := status (invoices s' i)\<rparr>) \<and>
     invoiceCounter s' = invoiceCounter s \<and> owner s' = owner s"

text \<open>
  A call made on the ledger \<open>s\<close> with outcome \<open>r\<close> failed, and the ledger is as before;
  \<open>refused\<close> also names the kind of the error.
\<close>

definition rejected :: "ledger \<Rightarrow> error + ledger \<Rightarrow> bool" where
  "rejected s r \<longleftrightarrow> isl r \<and> commit s r = s"

definition refused :: "kind \<Rightarrow> ledger \<Rightarrow> error + ledger \<Rightarrow> bool" where
  "refused k s r \<longleftrightarrow> fails_with k r \<and> commit s r = s"

text \<open>
  A sequence of \<open>createInvoice\<close> calls, each given as sender, freelancer, amount and
  description, all of which succeed: the ids returned, in call order, and the ledger
  after the last call.
\<close>

fun createInvoices ::
  "(address \<times> address \<times> uint256 \<times> string) list \<Rightarrow> ledger \<Rightarrow> error + (uint256 list \<times> ledger)" where
  "createInvoices [] s = Inr ([], s)"
| "createInvoices ((sender, fl, amt, descr) # calls) s =
     (case createInvoice sender fl amt descr s of
        Inl e \<Rightarrow> Inl e
      | Inr (i, s1) \<Rightarrow>
          (case createInvoices calls s1 of
             Inl e \<Rightarrow> Inl e
           | Inr (ids, s2) \<Rightarrow> Inr (i # ids, s2)))"

subsection \<open>Scenarios\<close>

text \<open>
  The contract deployed at address 9 with owner 1; the client is 2 and the freelancer 3.
  The scenarios are those of the specification: an invoice of 100 for "web work" is
  created, funded, marked completed and released. In the last one the freelancer is a
  contract that, on receiving the payment, calls \<open>releasePayment\<close> again and has the
  owner's \<open>resolveDispute\<close> called, before accepting.
\<close>

definition fresh :: ledger where
  "fresh = projr (constructor 9 1)"

definition created_scenario :: "tx list" where
  "created_scenario = [Tx 2 (CreateInvoice 3 100 ''web work'') Accept]"

definition completed_scenario :: "tx list" where
  "completed_scenario =
     [Tx 2 (CreateInvoice 3 100 ''web work'') Accept,
      Tx 2 (FundInvoice 0 100) Accept,
      Tx 3 (MarkInvoiceCompleted 0) Accept]"

definition paid_scenario :: "tx list" where
  "paid_scenario =
     [Tx 2 (CreateInvoice 3 100 ''web work'') Accept,
      Tx 2 (FundInvoice 0 100) Accept,
      Tx 3 (MarkInvoiceCompleted 0) Accept,
      Tx 2 (ReleasePayment 0) Accept]"

definition reentrant_scenario :: "tx list" where
  "reentrant_scenario =
     [Tx 2 (CreateInvoice 3 100 ''web work'') Accept,
      Tx 2 (FundInvoice 0 200) Accept,
      Tx 2 (FundInvoice 0 100) Accept,
      Tx 7 (Receive 100) Accept,
      Tx 3 (MarkInvoiceCompleted 0) Accept,
      Tx 2 (ReleasePayment 0)
        (Reenter (Tx 2 (ReleasePayment 0) Accept)
          (Reenter (Tx 1 (ResolveDispute 0 True) Accept) Accept))]"

text \<open>
  A release of the payment to a freelancer that, on receiving it, creates an invoice of
  its own.
\<close>

definition creating_recipient :: tx where
  "creating_recipient =
     Tx 2 (ReleasePayment 0) (Reenter (Tx 3 (CreateInvoice 3 1 ''more'') Accept) Accept)"

text \<open>The ledgers the scenarios end in.\<close>

definition created_ledger :: ledger where
  "created_ledger =
     \<lparr>invoices = (\<lambda>i. emptyInvoice)(0 :=
        \<lparr>invoiceId = 0, client = 2, freelancer = 3, amount = 100,
         description = ''web work'', status = CREATED\<rparr>),
      invoiceCounter = 1, owner = 1, self = 9, balance = 0,
      trail = (\<lambda>i. [])(0 := [(Made, CREATED)]),
      payouts = (\<lambda>i. []), minted = [0]\<rparr>"

definition completed_ledger :: ledger where
  "completed_ledger =
     \<lparr>invoices = (\<lambda>i. emptyInvoice)(0 :=
        \<lparr>invoiceId = 0, client = 2, freelancer = 3, amount = 100,
         description = ''web work'', status = COMPLETED\<rparr>),
      invoiceCounter = 1, owner = 1, self = 9, balance = 100,
      trail = (\<lambda>i. [])(0 := [(Made, CREATED), (Funded, FUNDED), (Completed, COMPLETED)]),
      payouts = (\<lambda>i. []), minted = [0]\<rparr>"

definition paid_ledger :: "nat \<Rightarrow> ledger" where
  "paid_ledger left =
     \<lparr>invoices = (\<lambda>i. emptyInvoice)(0 :=
        \<lparr>invoiceId = 0, client = 2, freelancer = 3, amount = 100,
         description = ''web work'', status = PAID\<rparr>),
      invoiceCounter = 1, owner = 1, self = 9, balance = left,
      trail = (\<lambda>i. [])(0 :=
        [(Made, CREATED), (Funded, FUNDED), (Completed, COMPLETED), (Released, PAID)]),
      payouts = (\<lambda>i. [])(0 := [(3, 100)]), minted = [0]\<rparr>"

definition three_created :: ledger where
  "three_created =
     \<lparr>invoices = (\<lambda>i. emptyInvoice)
        (0 := \<lparr>invoiceId = 0, client = 2, freelancer = 3, amount = 100,
               description = ''web work'', status = CREATED\<rparr>,
         1 := \<lparr>invoiceId = 1, client = 2, freelancer = 3, amount = 50,
               description = ''logo'', status = CREATED\<rparr>,
         2 := \<lparr>invoiceId = 2, client = 4, freelancer = 3, amount = 10,
               description = ''x'', status = CREATED\<rparr>),
      invoiceCounter = 3, owner = 1, self = 9, balance = 0,
      trail = (\<lambda>i. [])(0 := [(Made, CREATED)], 1 := [(Made, CREATED)], 2 := [(Made, CREATED)]),
      payouts = (\<lambda>i. []), minted = [0, 1, 2]\<rparr>"

text \<open>
  Creations among other transitions: the first invoice is cancelled, the second funded,
  completed and paid, and a third is created by another client.
\<close>

definition mixed_scenario :: "tx list" where
  "mixed_scenario =
     [Tx 2 (CreateInvoice 3 100 ''web work'') Accept,
      Tx 2 (CancelInvoice 0) Accept,
      Tx 2 (CreateInvoice 3 50 ''logo'') Accept,
      Tx 2 (FundInvoice 1 50) Accept,
      Tx 3 (MarkInvoiceCompleted 1) Accept,
      Tx 2 (ReleasePayment 1) Accept,
      Tx 4 (CreateInvoice 3 10 ''x'') Accept]"

definition mixed_ledger :: ledger where
  "mixed_ledger =
     \<lparr>invoices = (\<lambda>i. emptyInvoice)
        (0 := \<lparr>invoiceId = 0, client = 2, freelancer = 3, amount = 100,
               description = ''web work'', status = CANCELLED\<rparr>,
         1 := \<lparr>invoiceId = 1, client = 2, freelancer = 3, amount = 50,
               description = ''logo'', status = PAID\<rparr>,
         2 := \<lparr>invoiceId = 2, client = 4, freelancer = 3, amount = 10,
               description = ''x'', status = CREATED\<rparr>),
      invoiceCounter = 3, owner = 1, self = 9, balance = 0,
      trail = (\<lambda>i. [])
        (0 := [(Made, CREATED), (Cancelled, CANCELLED)],
         1 := [(Made, CREATED), (Funded, FUNDED), (Completed, COMPLETED), (Released, PAID)],
         2 := [(Made, CREATED)]),
      payouts = (\<lambda>i. [])(1 := [(3, 50)]), minted = [0, 1, 2]\<rparr>"

definition four_created :: ledger where
  "four_created =
     mixed_ledger\<lparr>invoiceCounter := 4,
       invoices := (invoices mixed_ledger)(3 :=
         \<lparr>invoiceId = 3, client = 5, freelancer = 3, amount = 7,
          description = ''y'', status = CREATED\<rparr>),
       trail := (trail mixed_ledger)(3 := [(Made, CREATED)]),
       minted := [0, 1, 2, 3]\<rparr>"

section \<open>Basic facts\<close>

lemmas run_defs =
  constructor_def commit_def dispatch_def createInvoice_def fundInvoice_def
  markInvoiceCompleted_def releasePayment_def cancelInvoice_def resolveDispute_def
  transferOwnership_def receive_def call_value_def write_status_def emptyInvoice_def Let_def

subsection \<open>Word arithmetic and the functions' successful runs\<close>

lemma unat_succ: "c \<noteq> - 1 \<Longrightarrow> unat (c + 1 :: 'a::len word) = Suc (unat c)"
  by (metis add.commute add_eq_0_iff2 unatSuc)

lemma less_succ_word: "c \<noteq> - 1 \<Longrightarrow> (j < c + 1) = (j < c \<or> j = (c :: 'a::len word))"
  by (auto simp: word_less_nat_alt unat_succ word_unat_eq_iff)

lemma succ_le_word: "c \<noteq> - 1 \<Longrightarrow> (c + 1 \<le> j) = (c < (j :: 'a::len word))"
  by (auto simp: word_less_nat_alt word_le_nat_alt unat_succ)

lemma createInvoice_Inr:
  "createInvoice sender fl amt descr s = Inr (i, s') \<longleftrightarrow>
     fl \<noteq> 0 \<and> amt \<noteq> 0 \<and> descr \<noteq> [] \<and> invoiceCounter s \<noteq> - 1 \<and> i = invoiceCounter s \<and>
     s' = s\<lparr>invoiceCounter := invoiceCounter s + 1,
            invoices := (invoices s)(i :=
              \<lparr>invoiceId = i, client = sender, freelancer = fl, amount = amt,
               description = descr, status = CREATED\<rparr>),
            trail := (trail s)(i := trail s i @ [(Made, CREATED)]),
            minted := minted s @ [i]\<rparr>"
  by (auto simp: createInvoice_def Let_def word_neq_0_conv)

lemma fundInvoice_Inr:
  "fundInvoice sender val i s = Inr s' \<longleftrightarrow>
     client (invoices s i) \<noteq> 0 \<and> client (invoices s i) = sender \<and>
     status (invoices s i) = CREATED \<and> val = amount (invoices s i) \<and>
     s' = write_status i FUNDED Funded (s\<lparr>balance := balance s + unat val\<rparr>)"
  by (auto simp: fundInvoice_def Let_def)

lemma markInvoiceCompleted_Inr:
  "markInvoiceCompleted sender i s = Inr s' \<longleftrightarrow>
     freelancer (invoices s i) \<noteq> 0 \<and> freelancer (invoices s i) = sender \<and>
     status (invoices s i) = FUNDED \<and> s' = write_status i COMPLETED Completed s"
  by (auto simp: markInvoiceCompleted_def Let_def)

lemma cancelInvoice_Inr:
  "cancelInvoice sender i s = Inr s' \<longleftrightarrow>
     client (invoices s i) \<noteq> 0 \<and> client (invoices s i) = sender \<and>
     status (invoices s i) = CREATED \<and> s' = write_status i CANCELLED Cancelled s"
  by (auto simp: cancelInvoice_def Let_def)

lemma call_value_Some:
  "call_value Some i r v s = Some s' \<longleftrightarrow> unat v \<le> balance s \<and> s' = pay i r v s"
  by (auto simp: call_value_def pay_def Let_def)

lemma call_value_None:
  "call_value Some i r v s = None \<longleftrightarrow> balance s < unat v"
  by (auto simp: call_value_def Let_def)

lemma balance_write_status [simp]: "balance (write_status i st m s) = balance s"
  by (simp add: write_status_def)

lemma releasePayment_Inr:
  "releasePayment Some sender i s = Inr s' \<longleftrightarrow>
     client (invoices s i) \<noteq> 0 \<and> client (invoices s i) = sender \<and>
     status (invoices s i) = COMPLETED \<and> unat (amount (invoices s i)) \<le> balance s \<and>
     s' = pay i (freelancer (invoices s i)) (amount (invoices s i)) (write_status i PAID Released s)"
  by (auto simp: releasePayment_def Let_def call_value_Some call_value_None split: option.splits)

lemma resolveDispute_Inr:
  "resolveDispute Some sender i b s = Inr s' \<longleftrightarrow>
     owner s = sender \<and> client (invoices s i) \<noteq> 0 \<and>
     (status (invoices s i) = FUNDED \<or> status (invoices s i) = COMPLETED) \<and>
     unat (amount (invoices s i)) \<le> balance s \<and>
     s' = pay i (if b then freelancer (invoices s i) else client (invoices s i))
            (amount (invoices s i))
            (write_status i (if b then PAID else CANCELLED) (Resolved b) s)"
  by (auto simp: resolveDispute_def Let_def call_value_Some call_value_None split: option.splits)

lemma transferOwnership_Inr:
  "transferOwnership sender newOwner s = Inr s' \<longleftrightarrow>
     owner s = sender \<and> newOwner \<noteq> 0 \<and> s' = s\<lparr>owner := newOwner\<rparr>"
  by (auto simp: transferOwnership_def)

lemma write_status_simps [simp]:
  "invoices (write_status i st m s) = (invoices s)(i := (invoices s i)\<lparr>status := st\<rparr>)"
  "trail (write_status i st m s) = (trail s)(i := trail s i @ [(m, st)])"
  "payouts (write_status i st m s) = payouts s"
  "minted (write_status i st m s) = minted s"
  "invoiceCounter (write_status i st m s) = invoiceCounter s"
  "owner (write_status i st m s) = owner s"
  by (simp_all add: write_status_def)

lemma pay_simps [simp]:
  "invoices (pay i r v s) = invoices s"
  "trail (pay i r v s) = trail s"
  "payouts (pay i r v s) = (payouts s)(i := payouts s i @ [(r, v)])"
  "invoiceCounter (pay i r v s) = invoiceCounter s"
  "owner (pay i r v s) = owner s"
  "self (pay i r v s) = self s"
  "minted (pay i r v s) = minted s"
  by (simp_all add: pay_def)

subsection \<open>Every successful call is a chain of atomic effects\<close>

lemma call_value_split:
  "call_value callee i r v s =
     (case call_value Some i r v s of None \<Rightarrow> None
      | Some s1 \<Rightarrow> if r = self s then Some s1 else callee s1)"
  by (simp add: call_value_def Let_def)

lemma self_write_status [simp]: "self (write_status i st m s) = self s"
  by (simp add: write_status_def)

lemma releasePayment_split:
  "releasePayment callee sender i s =
     (case releasePayment Some sender i s of Inl e \<Rightarrow> Inl e
      | Inr s1 \<Rightarrow> if freelancer (invoices s i) = self s then Inr s1
                  else (case callee s1 of None \<Rightarrow> Inl PaymentTransferFailed | Some s2 \<Rightarrow> Inr s2))"
  unfolding releasePayment_def Let_def
  by (subst call_value_split) (simp split: option.split)

lemma resolveDispute_split:
  "resolveDispute callee sender i b s =
     (case resolveDispute Some sender i b s of Inl e \<Rightarrow> Inl e
      | Inr s1 \<Rightarrow> if (if b then freelancer (invoices s i) else client (invoices s i)) = self s
                  then Inr s1
                  else (case callee s1 of None \<Rightarrow> Inl DisputeTransferFailed | Some s2 \<Rightarrow> Inr s2))"
  unfolding resolveDispute_def Let_def
  by (subst call_value_split) (simp split: option.split)

lemma dispatch_effects:
  assumes k: "\<And>s1 s2. callee s1 = Some s2 \<Longrightarrow> effect\<^sup>*\<^sup>* s1 s2"
    and nz: "sender \<noteq> 0"
    and ok: "dispatch callee sender req s = Inr s'"
  shows "effect\<^sup>*\<^sup>* s s'"
proof (cases req)
  case (CreateInvoice fl amt descr)
  with ok obtain i where "createInvoice sender fl amt descr s = Inr (i, s')"
    by (cases "createInvoice sender fl amt descr s") (auto simp: dispatch_def)
  with nz show ?thesis by (blast intro: effect.created)
next
  case (FundInvoice i val)
  with ok show ?thesis by (auto simp: dispatch_def intro: effect.funded)
next
  case (MarkInvoiceCompleted i)
  with ok show ?thesis by (auto simp: dispatch_def intro: effect.completed)
next
  case (ReleasePayment i)
  with ok have r: "releasePayment callee sender i s = Inr s'" by (simp add: dispatch_def)
  then obtain s1 where s1: "releasePayment Some sender i s = Inr s1"
    and "s' = s1 \<or> callee s1 = Some s'"
    by (subst (asm) releasePayment_split) (auto split: sum.splits if_splits option.splits)
  then have "effect\<^sup>*\<^sup>* s1 s'" using k by auto
  with s1 show ?thesis by (blast intro: effect.released converse_rtranclp_into_rtranclp)
next
  case (CancelInvoice i)
  with ok show ?thesis by (auto simp: dispatch_def intro: effect.cancelled)
next
  case (ResolveDispute i b)
  with ok have r: "resolveDispute callee sender i b s = Inr s'" by (simp add: dispatch_def)
  then obtain s1 where s1: "resolveDispute Some sender i b s = Inr s1"
    and "s' = s1 \<or> callee s1 = Some s'"
    by (subst (asm) resolveDispute_split) (auto split: sum.splits if_splits option.splits)
  then have "effect\<^sup>*\<^sup>* s1 s'" using k by auto
  with s1 show ?thesis by (blast intro: effect.resolved converse_rtranclp_into_rtranclp)
next
  case (TransferOwnership newOwner)
  with ok show ?thesis by (auto simp: dispatch_def intro: effect.handed)
next
  case (Receive val)
  with ok show ?thesis by (auto simp: dispatch_def intro: effect.received)
qed

lemma exec_run_effects:
  "valid t \<Longrightarrow> exec t s = Inr s' \<Longrightarrow> effect\<^sup>*\<^sup>* s s'"
  "valid_script k \<Longrightarrow> run k s = Some s' \<Longrightarrow> effect\<^sup>*\<^sup>* s s'"
proof (induction t and k arbitrary: s s' and s s')
  case (Tx sender req k)
  then show ?case by (auto intro: dispatch_effects)
next
  case Accept
  then show ?case by simp
next
  case Reject
  then show ?case by simp
next
  case (Reenter t k)
  have "effect\<^sup>*\<^sup>* s (commit s (exec t s))"
    using Reenter.IH(1) [of s] Reenter.prems(1)
    by (cases "exec t s") (auto simp: commit_def)
  moreover have "effect\<^sup>*\<^sup>* (commit s (exec t s)) s'"
    using Reenter.IH(2) Reenter.prems by simp
  ultimately show ?case by simp
qed

lemma commit_effects: "valid t \<Longrightarrow> effect\<^sup>*\<^sup>* s (commit s (exec t s))"
  by (cases "exec t s") (auto simp: commit_def intro: exec_run_effects(1))

subsection \<open>The invariant\<close>

lemma sound_exists: "sound s \<Longrightarrow> client (invoices s i) \<noteq> 0 \<longleftrightarrow> i < invoiceCounter s"
  using spec [of "slot_ok s" i] by (auto simp: sound_def slot_ok_def emptyInvoice_def split: if_splits)

lemma sound_exists': "sound s \<Longrightarrow> freelancer (invoices s i) \<noteq> 0 \<longleftrightarrow> i < invoiceCounter s"
  using spec [of "slot_ok s" i] by (auto simp: sound_def slot_ok_def emptyInvoice_def split: if_splits)

lemma sound_constructor: "constructor this initialOwner = Inr s \<Longrightarrow> sound s"
  by (auto simp: constructor_def sound_def slot_ok_def split: if_splits)

lemma effect_sound:
  assumes "effect s s'" and snd: "sound s"
  shows "sound s'"
  unfolding sound_def
proof
  fix j
  have j: "slot_ok s j" using snd by (simp add: sound_def)
  from assms(1) show "slot_ok s' j"
  proof cases
    case (created sender fl amt descr i)
    then show ?thesis using j
      by (auto simp: createInvoice_Inr slot_ok_def story_def less_succ_word)
  next
    case (funded sender val i)
    then have i: "slot_ok s i" "i < invoiceCounter s" using snd sound_exists [OF snd, of i]
      by (auto simp: sound_def fundInvoice_Inr)
    with funded j show ?thesis
      by (auto simp: fundInvoice_Inr slot_ok_def story_def)
  next
    case (completed sender i)
    then have i: "slot_ok s i" "i < invoiceCounter s" using snd sound_exists' [OF snd, of i]
      by (auto simp: sound_def markInvoiceCompleted_Inr)
    with completed j show ?thesis
      by (auto simp: markInvoiceCompleted_Inr slot_ok_def story_def)
  next
    case (released sender i)
    then have i: "slot_ok s i" "i < invoiceCounter s" using snd sound_exists [OF snd, of i]
      by (auto simp: sound_def releasePayment_Inr)
    with released j show ?thesis
      by (auto simp: releasePayment_Inr slot_ok_def story_def)
  next
    case (cancelled sender i)
    then have i: "slot_ok s i" "i < invoiceCounter s" using snd sound_exists [OF snd, of i]
      by (auto simp: sound_def cancelInvoice_Inr)
    with cancelled j show ?thesis
      by (auto simp: cancelInvoice_Inr slot_ok_def story_def)
  next
    case (resolved sender i b)
    then have i: "slot_ok s i" "i < invoiceCounter s" using snd sound_exists [OF snd, of i]
      by (auto simp: sound_def resolveDispute_Inr)
    with resolved j show ?thesis
      by (auto simp: resolveDispute_Inr slot_ok_def story_def)
  next
    case (handed sender newOwner)
    then show ?thesis using j by (auto simp: transferOwnership_Inr slot_ok_def)
  next
    case (received val)
    then show ?thesis using j by (auto simp: receive_def slot_ok_def)
  qed
qed

lemma effects_sound: "effect\<^sup>*\<^sup>* s s' \<Longrightarrow> sound s \<Longrightarrow> sound s'"
  by (induction rule: rtranclp_induct) (auto intro: effect_sound)

lemma reachable_sound: "reachable s \<Longrightarrow> sound s"
  by (induction rule: reachable.induct)
     (auto intro: sound_constructor effects_sound commit_effects)

lemma reachable_execs: "reachable s \<Longrightarrow> list_all valid ts \<Longrightarrow> reachable (execs ts s)"
  by (induction ts arbitrary: s) (auto intro: reachable.called)

lemma sound_slot: "sound s \<Longrightarrow> slot_ok s i"
  by (simp add: sound_def)

lemma sound_status_exists:
  "sound s \<Longrightarrow> status (invoices s i) \<noteq> CREATED \<Longrightarrow> i < invoiceCounter s"
  using sound_slot [of s i] by (auto simp: slot_ok_def emptyInvoice_def split: if_splits)

subsection \<open>What no call changes\<close>

lemma effect_keeps:
  assumes "effect s s'" and snd: "sound s" and i: "i < invoiceCounter s"
  shows "i < invoiceCounter s' \<and> same_terms (invoices s' i) (invoices s i)"
  using assms(1)
proof cases
  case (created sender fl amt descr j)
  then show ?thesis using i by (auto simp: same_terms_def createInvoice_Inr less_succ_word)
next
  case (funded sender val j)
  then show ?thesis using i by (auto simp: same_terms_def fundInvoice_Inr)
next
  case (completed sender j)
  then show ?thesis using i by (auto simp: same_terms_def markInvoiceCompleted_Inr)
next
  case (released sender j)
  then show ?thesis using i by (auto simp: same_terms_def releasePayment_Inr)
next
  case (cancelled sender j)
  then show ?thesis using i by (auto simp: same_terms_def cancelInvoice_Inr)
next
  case (resolved sender j b)
  then show ?thesis using i by (auto simp: same_terms_def resolveDispute_Inr)
next
  case (handed sender newOwner)
  then show ?thesis using i by (auto simp: same_terms_def transferOwnership_Inr)
next
  case (received val)
  then show ?thesis using i by (auto simp: same_terms_def receive_def)
qed

lemma effect_final:
  assumes "effect s s'" and snd: "sound s"
    and fin: "status (invoices s i) = PAID \<or> status (invoices s i) = CANCELLED"
  shows "invoices s' i = invoices s i \<and> payouts s' i = payouts s i \<and> trail s' i = trail s i"
proof -
  have i: "i < invoiceCounter s" using sound_status_exists [OF snd, of i] fin by auto
  from assms(1) show ?thesis
  proof cases
    case (created sender fl amt descr j)
    then show ?thesis using i by (auto simp: createInvoice_Inr)
  next
    case (funded sender val j)
    then show ?thesis using fin by (auto simp: fundInvoice_Inr)
  next
    case (completed sender j)
    then show ?thesis using fin by (auto simp: markInvoiceCompleted_Inr)
  next
    case (released sender j)
    then show ?thesis using fin by (auto simp: releasePayment_Inr)
  next
    case (cancelled sender j)
    then show ?thesis using fin by (auto simp: cancelInvoice_Inr)
  next
    case (resolved sender j b)
    then show ?thesis using fin by (auto simp: resolveDispute_Inr)
  next
    case (handed sender newOwner)
    then show ?thesis by (auto simp: transferOwnership_Inr)
  next
    case (received val)
    then show ?thesis by (auto simp: receive_def)
  qed
qed

lemma effects_keeps:
  "effect\<^sup>*\<^sup>* s s' \<Longrightarrow> sound s \<Longrightarrow> i < invoiceCounter s \<Longrightarrow>
     i < invoiceCounter s' \<and> same_terms (invoices s' i) (invoices s i)"
proof (induction rule: rtranclp_induct)
  case base
  then show ?case by (simp add: same_terms_def)
next
  case (step y z)
  then have y: "sound y" "i < invoiceCounter y"
    "same_terms (invoices y i) (invoices s i)"
    by (auto intro: effects_sound)
  from effect_keeps [OF step.hyps(2) y(1,2)] y(3) show ?case
    by (simp add: same_terms_def)
qed

lemma effects_final:
  "effect\<^sup>*\<^sup>* s s' \<Longrightarrow> sound s \<Longrightarrow>
   status (invoices s i) = PAID \<or> status (invoices s i) = CANCELLED \<Longrightarrow>
     invoices s' i = invoices s i \<and> payouts s' i = payouts s i \<and> trail s' i = trail s i"
proof (induction rule: rtranclp_induct)
  case base
  then show ?case by simp
next
  case (step y z)
  then have y: "sound y" "status (invoices y i) = PAID \<or> status (invoices y i) = CANCELLED"
    by (auto intro: effects_sound)
  from effect_final [OF step.hyps(2) y] step show ?case by simp
qed

subsection \<open>Failed calls\<close>

lemma terminal_rejects:
  assumes "status (invoices s i) = PAID \<or> status (invoices s i) = CANCELLED"
  shows "isl (fundInvoice sender val i s)" "isl (markInvoiceCompleted sender i s)"
    "isl (releasePayment callee sender i s)" "isl (cancelInvoice sender i s)"
    "isl (resolveDispute callee sender i b s)"
  using assms
  by (auto simp: fundInvoice_def markInvoiceCompleted_def releasePayment_def cancelInvoice_def
      resolveDispute_def Let_def)

lemma rejected_isl: "isl r \<Longrightarrow> rejected s r"
  by (cases r) (auto simp: rejected_def commit_def)

lemma refused_Inl: "kind_of e = k \<Longrightarrow> refused k s (Inl e)"
  by (simp add: refused_def fails_with_def commit_def)

subsection \<open>Sequences of creations\<close>

lemma createInvoices_ids:
  "createInvoices calls s = Inr (ids, s') \<Longrightarrow>
     ids = map (\<lambda>k. invoiceCounter s + of_nat k) [0..<length calls] \<and>
     unat (invoiceCounter s') = unat (invoiceCounter s) + length calls"
proof (induction calls arbitrary: s ids)
  case Nil
  then show ?case by simp
next
  case (Cons c calls)
  obtain sender fl amt descr where c: "c = (sender, fl, amt, descr)" by (cases c)
  from Cons.prems c obtain i s1 ids' where
    one: "createInvoice sender fl amt descr s = Inr (i, s1)" and
    rest: "createInvoices calls s1 = Inr (ids', s')" and ids: "ids = i # ids'"
    by (auto split: sum.splits prod.splits)
  from one have i: "i = invoiceCounter s" "invoiceCounter s \<noteq> - 1"
    "invoiceCounter s1 = invoiceCounter s + 1"
    by (auto simp: createInvoice_Inr)
  have shift: "invoiceCounter s + 1 + of_nat k = invoiceCounter s + of_nat (Suc k)" for k
    by simp
  from Cons.IH [OF rest]
  have "ids' = map (\<lambda>k. invoiceCounter s1 + of_nat k) [0..<length calls]"
    and "unat (invoiceCounter s') = unat (invoiceCounter s1) + length calls"
    by simp_all
  then have "ids' = map (\<lambda>k. invoiceCounter s + of_nat (Suc k)) [0..<length calls]"
    and n: "unat (invoiceCounter s') = Suc (unat (invoiceCounter s)) + length calls"
    unfolding i(3) shift unat_succ [OF i(2)] by simp_all
  then have "ids' = map (\<lambda>k. invoiceCounter s + of_nat k) (map Suc [0..<length calls])"
    by (simp add: comp_def)
  then have "i # ids' = map (\<lambda>k. invoiceCounter s + of_nat k) [0..<Suc (length calls)]"
    using i(1) by (simp only: map_Suc_upt upt_conv_Cons [of 0 "Suc (length calls)"]) simp
  with ids n show ?case by simp
qed

lemma createInvoices_minted:
  "createInvoices calls s = Inr (ids, s') \<Longrightarrow> minted s' = minted s @ ids"
proof (induction calls arbitrary: s ids)
  case Nil
  then show ?case by simp
next
  case (Cons c calls)
  obtain sender fl amt descr where c: "c = (sender, fl, amt, descr)" by (cases c)
  from Cons.prems c obtain i s1 ids' where
    one: "createInvoice sender fl amt descr s = Inr (i, s1)" and
    rest: "createInvoices calls s1 = Inr (ids', s')" and ids: "ids = i # ids'"
    by (auto split: sum.splits prod.splits)
  from one have "minted s1 = minted s @ [i]" by (auto simp: createInvoice_Inr)
  with Cons.IH [OF rest] ids show ?case by simp
qed

text \<open>The ids minted so far are 0, 1, ... up to the counter, in any reachable ledger.\<close>

lemma effect_minted:
  assumes "effect s s'" and m: "minted s = map of_nat [0..<unat (invoiceCounter s)]"
  shows "minted s' = map of_nat [0..<unat (invoiceCounter s')]"
  using assms(1)
proof cases
  case (created sender fl amt descr i)
  then have i: "i = invoiceCounter s" "invoiceCounter s \<noteq> - 1"
    "invoiceCounter s' = invoiceCounter s + 1" "minted s' = minted s @ [i]"
    by (auto simp: createInvoice_Inr)
  have "of_nat (unat (invoiceCounter s)) = invoiceCounter s" by simp
  with i m show ?thesis by (simp add: unat_succ)
next
  case (funded sender val i)
  then show ?thesis using m by (auto simp: fundInvoice_Inr)
next
  case (completed sender i)
  then show ?thesis using m by (auto simp: markInvoiceCompleted_Inr)
next
  case (released sender i)
  then show ?thesis using m by (auto simp: releasePayment_Inr)
next
  case (cancelled sender i)
  then show ?thesis using m by (auto simp: cancelInvoice_Inr)
next
  case (resolved sender i b)
  then show ?thesis using m by (auto simp: resolveDispute_Inr)
next
  case (handed sender newOwner)
  then show ?thesis using m by (auto simp: transferOwnership_Inr)
next
  case (received val)
  then show ?thesis using m by (auto simp: receive_def)
qed

lemma effects_minted:
  "effect\<^sup>*\<^sup>* s s' \<Longrightarrow> minted s = map of_nat [0..<unat (invoiceCounter s)] \<Longrightarrow>
     minted s' = map of_nat [0..<unat (invoiceCounter s')]"
  by (induction rule: rtranclp_induct) (auto intro: effect_minted)

lemma reachable_minted: "reachable s \<Longrightarrow> minted s = map of_nat [0..<unat (invoiceCounter s)]"
proof (induction rule: reachable.induct)
  case (deployed this initialOwner s)
  then show ?case by (auto simp: constructor_def split: if_splits)
next
  case (called s t)
  then show ?case using effects_minted [OF commit_effects] by blast
qed

lemma card_below: "card {i::'a::len word. i < c} = unat c"
proof -
  have "unat ` {i. i < c} = {..<unat c}"
  proof (intro set_eqI iffI)
    fix n assume "n \<in> unat ` {i. i < c}"
    then show "n \<in> {..<unat c}" by (auto simp: word_less_nat_alt)
  next
    fix n assume "n \<in> {..<unat c}"
    then have n: "n < unat c" by simp
    then have "unat (of_nat n :: 'a word) = n"
      by (simp add: le_unat_uoi [of n c])
    with n show "n \<in> unat ` {i. i < c}"
      by (metis (mono_tags, lifting) image_eqI mem_Collect_eq word_less_nat_alt)
  qed
  moreover have "inj_on unat {i. i < c}" by (simp add: inj_on_def word_unat_eq_iff)
  ultimately show ?thesis by (metis card_image card_lessThan)
qed

subsection \<open>The scenarios\<close>

lemma constructor_fresh: "constructor 9 1 = Inr fresh"
  by (simp add: fresh_def constructor_def)

lemma reachable_scenario: "list_all valid ts \<Longrightarrow> reachable (execs ts fresh)"
  by (rule reachable_execs [OF reachable.deployed [OF constructor_fresh]])

lemma created_scenario_result: "execs created_scenario fresh = created_ledger"
  by (simp add: created_scenario_def created_ledger_def fresh_def run_defs)

lemma completed_scenario_result: "execs completed_scenario fresh = completed_ledger"
  by (simp add: completed_scenario_def completed_ledger_def fresh_def run_defs)

lemma paid_scenario_result: "execs paid_scenario fresh = paid_ledger 0"
  by (simp add: paid_scenario_def paid_ledger_def fresh_def run_defs)

lemma reentrant_scenario_result: "execs reentrant_scenario fresh = paid_ledger 100"
  by (simp add: reentrant_scenario_def paid_ledger_def fresh_def run_defs)

lemma three_created_result:
  "createInvoices [(2, 3, 100, ''web work''), (2, 3, 50, ''logo''), (4, 3, 10, ''x'')] fresh =
     Inr ([0, 1, 2], three_created)"
  by (simp add: fresh_def three_created_def constructor_def createInvoice_def Let_def
      emptyInvoice_def)

lemma mixed_scenario_result: "execs mixed_scenario fresh = mixed_ledger"
  by (simp add: mixed_scenario_def mixed_ledger_def fresh_def run_defs)

lemma four_created_result: "createInvoice 5 3 7 ''y'' mixed_ledger = Inr (3, four_created)"
  by (simp add: four_created_def mixed_ledger_def createInvoice_def Let_def)

lemma reachable_fresh: "reachable fresh"
  using reachable_scenario [of "[]"] by simp

lemma reachable_created: "reachable created_ledger"
  using reachable_scenario [of created_scenario]
  by (simp add: created_scenario_result) (simp add: created_scenario_def)

lemma reachable_completed: "reachable completed_ledger"
  using reachable_scenario [of completed_scenario]
  by (simp add: completed_scenario_result) (simp add: completed_scenario_def)

lemma reachable_paid: "reachable (paid_ledger 0)"
  using reachable_scenario [of paid_scenario]
  by (simp add: paid_scenario_result) (simp add: paid_scenario_def)

lemma reachable_mixed: "reachable mixed_ledger"
  using reachable_scenario [of mixed_scenario]
  by (simp add: mixed_scenario_result) (simp add: mixed_scenario_def)

lemma reachable_reentered: "reachable (paid_ledger 100)"
  using reachable_scenario [of reentrant_scenario]
  by (simp add: reentrant_scenario_result) (simp add: reentrant_scenario_def)

section \<open>The claims\<close>

subsection \<open>Terminal states and single payout\<close>

text \<open>
  C1. PAID and CANCELLED are terminal and the payout is not repeatable. For an invoice
  whose status is PAID or CANCELLED, each of \<open>fundInvoice\<close>, \<open>markInvoiceCompleted\<close>,
  \<open>releasePayment\<close>, \<open>cancelInvoice\<close> and \<open>resolveDispute\<close> on it fails, for every
  sender, value, flag and behaviour of a recipient, and the ledger is as before. In a
  reachable ledger no call whatsoever, with whatever calls nested in it, changes such an
  invoice or the payouts made for it; and for an invoice that is PAID exactly one payout
  was made, to its freelancer and of its amount. The payouts counted are those that took
  effect: a call that reverts undoes its transfer.
\<close>

theorem terminal_states_final:
  assumes "status (invoices s i) = PAID \<or> status (invoices s i) = CANCELLED"
  shows "rejected s (fundInvoice sender val i s) \<and>
         rejected s (markInvoiceCompleted sender i s) \<and>
         rejected s (releasePayment callee sender i s) \<and>
         rejected s (cancelInvoice sender i s) \<and>
         rejected s (resolveDispute callee sender i b s) \<and>
         (reachable s \<and> valid t \<longrightarrow>
            invoices (commit s (exec t s)) i = invoices s i \<and>
            payouts (commit s (exec t s)) i = payouts s i) \<and>
         (reachable s \<and> status (invoices s i) = PAID \<longrightarrow>
            payouts s i = [(freelancer (invoices s i), amount (invoices s i))])"
proof -
  have "reachable s \<and> valid t \<longrightarrow>
          invoices (commit s (exec t s)) i = invoices s i \<and>
          payouts (commit s (exec t s)) i = payouts s i"
    using effects_final [OF commit_effects reachable_sound assms, of t] by simp
  moreover have "reachable s \<and> status (invoices s i) = PAID \<longrightarrow>
          payouts s i = [(freelancer (invoices s i), amount (invoices s i))]"
  proof
    assume a: "reachable s \<and> status (invoices s i) = PAID"
    then have "slot_ok s i" using reachable_sound by (simp add: sound_def)
    with a show "payouts s i = [(freelancer (invoices s i), amount (invoices s i))]"
      by (auto simp: slot_ok_def story_def emptyInvoice_def split: if_splits)
  qed
  ultimately show ?thesis
    using terminal_rejects [OF assms] by (simp add: rejected_isl)
qed

text \<open>
  In the scenario with the re-entering freelancer the invoice is PAID, the two calls
  nested in the transfer were rejected, and one payout of 100 to the freelancer was made,
  although the contract still holds 100.
\<close>

theorem terminal_states_final_witness:
  "status (invoices (paid_ledger 100) 0) = PAID \<and>
   reachable (paid_ledger 100) \<and>
   execs reentrant_scenario fresh = paid_ledger 100 \<and>
   valid (Tx 1 (ResolveDispute 0 True) Accept) \<and>
   rejected (paid_ledger 100) (releasePayment Some 2 0 (paid_ledger 100)) \<and>
   rejected (paid_ledger 100) (resolveDispute Some 1 0 True (paid_ledger 100)) \<and>
   payouts (commit (paid_ledger 100)
     (exec (Tx 1 (ResolveDispute 0 True) Accept) (paid_ledger 100))) 0 = [(3, 100)] \<and>
   payouts (paid_ledger 100) 0 = [(3, 100)] \<and>
   balance (paid_ledger 100) = 100"
proof -
  have p: "status (invoices (paid_ledger 100) 0) = PAID \<or>
           status (invoices (paid_ledger 100) 0) = CANCELLED"
    by (simp add: paid_ledger_def)
  have v: "valid (Tx 1 (ResolveDispute 0 True) Accept)" by simp
  have q: "status (invoices (paid_ledger 100) 0) = PAID"
    "payouts (paid_ledger 100) 0 = [(3, 100)]" "balance (paid_ledger 100) = 100"
    by (simp_all add: paid_ledger_def)
  note a = terminal_states_final [OF p, where sender = 2 and callee = Some and b = True
        and t = "Tx 1 (ResolveDispute 0 True) Accept"]
  note b = terminal_states_final [OF p, where sender = 1 and callee = Some and b = True
        and t = "Tx 1 (ResolveDispute 0 True) Accept"]
  have c: "payouts (commit (paid_ledger 100)
     (exec (Tx 1 (ResolveDispute 0 True) Accept) (paid_ledger 100))) 0 =
     payouts (paid_ledger 100) 0"
    using a reachable_reentered v by blast
  from c q have d: "payouts (commit (paid_ledger 100)
     (exec (Tx 1 (ResolveDispute 0 True) Accept) (paid_ledger 100))) 0 = [(3, 100)]"
    by (simp only:)
  from a have e: "rejected (paid_ledger 100) (releasePayment Some 2 0 (paid_ledger 100))"
    by blast
  from b have f: "rejected (paid_ledger 100) (resolveDispute Some 1 0 True (paid_ledger 100))"
    by blast
  from q(1) reachable_reentered reentrant_scenario_result v e f d q(2,3)
  show ?thesis by blast
qed

subsection \<open>Authorization\<close>

text \<open>
  C2. Authorization is exclusive per transition. In a reachable ledger, for an existing
  invoice and every sender: \<open>fundInvoice\<close>, \<open>releasePayment\<close> and \<open>cancelInvoice\<close> fail
  with an error of kind Unauthorized when the sender is not the invoice's client;
  \<open>markInvoiceCompleted\<close> does when the sender is not its freelancer; \<open>resolveDispute\<close>
  does when the sender is not the owner of the contract. In each case the ledger is as
  before.
\<close>

theorem authorization_exclusive:
  assumes "reachable s" and "client (invoices s i) \<noteq> 0"
  shows "(sender \<noteq> client (invoices s i) \<longrightarrow>
            refused Unauthorized s (fundInvoice sender val i s) \<and>
            refused Unauthorized s (releasePayment callee sender i s) \<and>
            refused Unauthorized s (cancelInvoice sender i s)) \<and>
         (sender \<noteq> freelancer (invoices s i) \<longrightarrow>
            refused Unauthorized s (markInvoiceCompleted sender i s)) \<and>
         (sender \<noteq> owner s \<longrightarrow>
            refused Unauthorized s (resolveDispute callee sender i b s))"
proof -
  have "freelancer (invoices s i) \<noteq> 0"
    using sound_exists [OF reachable_sound [OF assms(1)], of i]
      sound_exists' [OF reachable_sound [OF assms(1)], of i] assms(2) by simp
  with assms(2) show ?thesis
    by (simp add: fundInvoice_def markInvoiceCompleted_def releasePayment_def cancelInvoice_def
        resolveDispute_def Let_def refused_Inl)
qed

theorem authorization_exclusive_witness:
  "reachable completed_ledger \<and> client (invoices completed_ledger 0) = 2 \<and>
   freelancer (invoices completed_ledger 0) = 3 \<and> owner completed_ledger = 1 \<and>
   refused Unauthorized completed_ledger (fundInvoice 3 100 0 completed_ledger) \<and>
   refused Unauthorized completed_ledger (releasePayment Some 3 0 completed_ledger) \<and>
   refused Unauthorized completed_ledger (cancelInvoice 3 0 completed_ledger) \<and>
   refused Unauthorized completed_ledger (markInvoiceCompleted 2 0 completed_ledger) \<and>
   refused Unauthorized completed_ledger (resolveDispute Some 2 0 True completed_ledger)"
proof -
  have c: "client (invoices completed_ledger 0) \<noteq> 0" by (simp add: completed_ledger_def)
  have q: "client (invoices completed_ledger 0) = 2" "freelancer (invoices completed_ledger 0) = 3"
    "owner completed_ledger = 1"
    by (simp_all add: completed_ledger_def)
  show ?thesis
    using reachable_completed q
      authorization_exclusive [OF reachable_completed c, of 3 100 Some True]
      authorization_exclusive [OF reachable_completed c, of 2 100 Some True]
    by simp
qed

subsection \<open>Failure of the transfer\<close>

text \<open>
  C3. Atomicity of \<open>releasePayment\<close> and \<open>resolveDispute\<close> when the transfer fails. Once
  the checks of the function have passed, the ledger \<open>mid\<close> in which the recipient's code
  runs already has the new status of the invoice, so a \<open>releasePayment\<close> or
  \<open>resolveDispute\<close> on the same invoice made from inside the transfer is rejected. The
  outcome of the function is decided by the transfer alone: when the contract holds too
  little, or the recipient reverts, the function fails with an error of kind
  TransferFailed, the ledger is as before the call and the status of the invoice is the
  one it had.
\<close>

theorem transfer_failure_atomic:
  "(client (invoices s i) \<noteq> 0 \<and> client (invoices s i) = sender \<and>
    status (invoices s i) = COMPLETED \<and>
    mid = pay i (freelancer (invoices s i)) (amount (invoices s i))
           (write_status i PAID Released s) \<longrightarrow>
      status (invoices mid i) = PAID \<and>
      releasePayment callee sender i s =
        (if balance s < unat (amount (invoices s i)) then Inl PaymentTransferFailed
         else if freelancer (invoices s i) = self s then Inr mid
         else case callee mid of None \<Rightarrow> Inl PaymentTransferFailed | Some s2 \<Rightarrow> Inr s2) \<and>
      rejected mid (releasePayment callee' sender' i mid) \<and>
      rejected mid (resolveDispute callee' sender' i b' mid) \<and>
      (balance s < unat (amount (invoices s i)) \<or>
       freelancer (invoices s i) \<noteq> self s \<and> callee mid = None \<longrightarrow>
         refused TransferFailed s (releasePayment callee sender i s) \<and>
         status (invoices (commit s (releasePayment callee sender i s)) i) = COMPLETED)) \<and>
   (owner s = sender \<and> client (invoices s i) \<noteq> 0 \<and>
    (status (invoices s i) = FUNDED \<or> status (invoices s i) = COMPLETED) \<and>
    r = (if b then freelancer (invoices s i) else client (invoices s i)) \<and>
    mid = pay i r (amount (invoices s i))
           (write_status i (if b then PAID else CANCELLED) (Resolved b) s) \<longrightarrow>
      status (invoices mid i) = (if b then PAID else CANCELLED) \<and>
      resolveDispute callee sender i b s =
        (if balance s < unat (amount (invoices s i)) then Inl DisputeTransferFailed
         else if r = self s then Inr mid
         else case callee mid of None \<Rightarrow> Inl DisputeTransferFailed | Some s2 \<Rightarrow> Inr s2) \<and>
      rejected mid (releasePayment callee' sender' i mid) \<and>
      rejected mid (resolveDispute callee' sender' i b' mid) \<and>
      (balance s < unat (amount (invoices s i)) \<or> r \<noteq> self s \<and> callee mid = None \<longrightarrow>
         refused TransferFailed s (resolveDispute callee sender i b s) \<and>
         status (invoices (commit s (resolveDispute callee sender i b s)) i) =
           status (invoices s i)))"
proof (intro conjI impI; elim conjE)
  assume a: "client (invoices s i) \<noteq> 0" "client (invoices s i) = sender"
    "status (invoices s i) = COMPLETED"
    "mid = pay i (freelancer (invoices s i)) (amount (invoices s i)) (write_status i PAID Released s)"
  then show paid: "status (invoices mid i) = PAID" by simp
  from a show eq: "releasePayment callee sender i s =
        (if balance s < unat (amount (invoices s i)) then Inl PaymentTransferFailed
         else if freelancer (invoices s i) = self s then Inr mid
         else case callee mid of None \<Rightarrow> Inl PaymentTransferFailed | Some s2 \<Rightarrow> Inr s2)"
    by (simp add: releasePayment_def call_value_def pay_def Let_def)
  from paid show "rejected mid (releasePayment callee' sender' i mid)"
    "rejected mid (resolveDispute callee' sender' i b' mid)"
    by (simp_all add: rejected_isl terminal_rejects)
  assume "balance s < unat (amount (invoices s i)) \<or>
       freelancer (invoices s i) \<noteq> self s \<and> callee mid = None"
  with eq have "releasePayment callee sender i s = Inl PaymentTransferFailed" by auto
  then show "refused TransferFailed s (releasePayment callee sender i s)"
    "status (invoices (commit s (releasePayment callee sender i s)) i) = COMPLETED"
    using a(3) by (simp_all add: refused_Inl commit_def)
next
  assume a: "owner s = sender" "client (invoices s i) \<noteq> 0"
    "status (invoices s i) = FUNDED \<or> status (invoices s i) = COMPLETED"
    "r = (if b then freelancer (invoices s i) else client (invoices s i))"
    "mid = pay i r (amount (invoices s i))
           (write_status i (if b then PAID else CANCELLED) (Resolved b) s)"
  then show paid: "status (invoices mid i) = (if b then PAID else CANCELLED)" by simp
  from a show eq: "resolveDispute callee sender i b s =
        (if balance s < unat (amount (invoices s i)) then Inl DisputeTransferFailed
         else if r = self s then Inr mid
         else case callee mid of None \<Rightarrow> Inl DisputeTransferFailed | Some s2 \<Rightarrow> Inr s2)"
    by (auto simp: resolveDispute_def call_value_def pay_def Let_def)
  from paid have "status (invoices mid i) = PAID \<or> status (invoices mid i) = CANCELLED"
    by (cases b) simp_all
  then show "rejected mid (releasePayment callee' sender' i mid)"
    "rejected mid (resolveDispute callee' sender' i b' mid)"
    by (simp_all add: rejected_isl terminal_rejects)
  assume "balance s < unat (amount (invoices s i)) \<or> r \<noteq> self s \<and> callee mid = None"
  with eq have "resolveDispute callee sender i b s = Inl DisputeTransferFailed" by auto
  then show "refused TransferFailed s (resolveDispute callee sender i b s)"
    "status (invoices (commit s (resolveDispute callee sender i b s)) i) = status (invoices s i)"
    by (simp_all add: refused_Inl commit_def)
qed

text \<open>
  The completed invoice of the scenario, with a freelancer, and then a client, that
  reverts on receiving value.
\<close>

theorem transfer_failure_atomic_witness:
  "client (invoices completed_ledger 0) = 2 \<and> owner completed_ledger = 1 \<and>
   status (invoices completed_ledger 0) = COMPLETED \<and>
   run Reject (pay 0 3 100 (write_status 0 PAID Released completed_ledger)) = None \<and>
   status (invoices (pay 0 3 100 (write_status 0 PAID Released completed_ledger)) 0) = PAID \<and>
   exec (Tx 2 (ReleasePayment 0) Reject) completed_ledger = Inl PaymentTransferFailed \<and>
   refused TransferFailed completed_ledger (releasePayment (run Reject) 2 0 completed_ledger) \<and>
   status (invoices (commit completed_ledger
     (releasePayment (run Reject) 2 0 completed_ledger)) 0) = COMPLETED \<and>
   exec (Tx 1 (ResolveDispute 0 False) Reject) completed_ledger = Inl DisputeTransferFailed \<and>
   refused TransferFailed completed_ledger
     (resolveDispute (run Reject) 1 0 False completed_ledger) \<and>
   status (invoices (commit completed_ledger
     (resolveDispute (run Reject) 1 0 False completed_ledger)) 0) = COMPLETED"
proof -
  have q: "client (invoices completed_ledger 0) = 2" "owner completed_ledger = 1"
    "status (invoices completed_ledger 0) = COMPLETED"
    "freelancer (invoices completed_ledger 0) = 3" "amount (invoices completed_ledger 0) = 100"
    "self completed_ledger = 9" "balance completed_ledger = 100"
    by (simp_all add: completed_ledger_def)
  show ?thesis
    using q
      transfer_failure_atomic [where s = completed_ledger and i = 0 and sender = 2
        and callee = "run Reject" and callee' = Some and sender' = 2 and b = False and b' = True
        and r = 3 and mid = "pay 0 3 100 (write_status 0 PAID Released completed_ledger)"]
      transfer_failure_atomic [where s = completed_ledger and i = 0 and sender = 1
        and callee = "run Reject" and callee' = Some and sender' = 2 and b = False and b' = True
        and r = 2
        and mid = "pay 0 2 100 (write_status 0 CANCELLED (Resolved False) completed_ledger)"]
    by (simp add: dispatch_def refused_Inl commit_def)
qed

subsection \<open>How an invoice comes to be PAID or CANCELLED\<close>

text \<open>
  C4. State reachability. In every reachable ledger, an invoice is PAID only if its
  status was written CREATED by \<open>createInvoice\<close>, FUNDED by \<open>fundInvoice\<close>, COMPLETED by
  \<open>markInvoiceCompleted\<close> and PAID by \<open>releasePayment\<close>, or if it was written PAID by
  \<open>resolveDispute\<close> with \<open>releaseToFreelancer = true\<close> from FUNDED or from COMPLETED; and
  it is CANCELLED only if it was written CANCELLED by \<open>cancelInvoice\<close> from CREATED, or by
  \<open>resolveDispute\<close> with \<open>releaseToFreelancer = false\<close> from FUNDED or from COMPLETED.
\<close>

theorem terminal_status_origin:
  assumes "reachable s"
  shows "(status (invoices s i) = PAID \<longrightarrow>
            trail s i =
              [(Made, CREATED), (Funded, FUNDED), (Completed, COMPLETED), (Released, PAID)] \<or>
            trail s i = [(Made, CREATED), (Funded, FUNDED), (Resolved True, PAID)] \<or>
            trail s i =
              [(Made, CREATED), (Funded, FUNDED), (Completed, COMPLETED),
               (Resolved True, PAID)]) \<and>
         (status (invoices s i) = CANCELLED \<longrightarrow>
            trail s i = [(Made, CREATED), (Cancelled, CANCELLED)] \<or>
            trail s i = [(Made, CREATED), (Funded, FUNDED), (Resolved False, CANCELLED)] \<or>
            trail s i =
              [(Made, CREATED), (Funded, FUNDED), (Completed, COMPLETED),
               (Resolved False, CANCELLED)])"
proof -
  have "slot_ok s i" using reachable_sound [OF assms] by (simp add: sound_def)
  then show ?thesis
    by (auto simp: slot_ok_def story_def emptyInvoice_def split: if_splits)
qed

theorem terminal_status_origin_witness:
  "reachable (paid_ledger 0) \<and> execs paid_scenario fresh = paid_ledger 0 \<and>
   status (invoices (paid_ledger 0) 0) = PAID \<and>
   trail (paid_ledger 0) 0 =
     [(Made, CREATED), (Funded, FUNDED), (Completed, COMPLETED), (Released, PAID)]"
  using reachable_paid paid_scenario_result terminal_status_origin [OF reachable_paid, of 0]
  by (simp add: paid_ledger_def)

subsection \<open>Funding\<close>

text \<open>
  C5. Exact funding. \<open>fundInvoice\<close> with a value different from the amount of the invoice
  always fails and leaves the ledger as it was. For an existing invoice in status CREATED
  and the client as sender, \<open>fundInvoice\<close> succeeds if and only if the value sent equals
  the amount: then the status becomes FUNDED and the contract holds the value in addition;
  otherwise the status stays CREATED and the contract holds what it held.
\<close>

theorem exact_funding:
  "(val \<noteq> amount (invoices s i) \<longrightarrow> rejected s (fundInvoice sender val i s)) \<and>
   (client (invoices s i) \<noteq> 0 \<and> status (invoices s i) = CREATED \<and>
    sender = client (invoices s i) \<longrightarrow>
      (val = amount (invoices s i) \<longrightarrow>
         fundInvoice sender val i s =
           Inr (write_status i FUNDED Funded (s\<lparr>balance := balance s + unat val\<rparr>)) \<and>
         status (invoices (commit s (fundInvoice sender val i s)) i) = FUNDED \<and>
         balance (commit s (fundInvoice sender val i s)) = balance s + unat val) \<and>
      (val \<noteq> amount (invoices s i) \<longrightarrow>
         fundInvoice sender val i s = Inl AmountMismatch \<and>
         status (invoices (commit s (fundInvoice sender val i s)) i) = CREATED \<and>
         balance (commit s (fundInvoice sender val i s)) = balance s) \<and>
      (isl (fundInvoice sender val i s) \<longleftrightarrow> val \<noteq> amount (invoices s i)))"
  by (auto simp: fundInvoice_def Let_def commit_def rejected_def)

theorem exact_funding_witness:
  "client (invoices created_ledger 0) = 2 \<and> status (invoices created_ledger 0) = CREATED \<and>
   amount (invoices created_ledger 0) = 100 \<and> balance created_ledger = 0 \<and>
   fundInvoice 2 99 0 created_ledger = Inl AmountMismatch \<and>
   fundInvoice 2 101 0 created_ledger = Inl AmountMismatch \<and>
   balance (commit created_ledger (fundInvoice 2 101 0 created_ledger)) = 0 \<and>
   status (invoices (commit created_ledger (fundInvoice 2 100 0 created_ledger)) 0) = FUNDED \<and>
   balance (commit created_ledger (fundInvoice 2 100 0 created_ledger)) = 100"
proof -
  have q: "client (invoices created_ledger 0) = 2" "status (invoices created_ledger 0) = CREATED"
    "amount (invoices created_ledger 0) = 100" "balance created_ledger = 0"
    by (simp_all add: created_ledger_def)
  show ?thesis
    using q exact_funding [of 99 created_ledger 0 2] exact_funding [of 101 created_ledger 0 2]
      exact_funding [of 100 created_ledger 0 2]
    by (simp add: commit_def)
qed

subsection \<open>Invoices that do not exist\<close>

text \<open>
  C6, as amended. In a reachable ledger, for an id that was never created (one at or above
  the counter), \<open>fundInvoice\<close>, \<open>markInvoiceCompleted\<close>, \<open>releasePayment\<close> and
  \<open>cancelInvoice\<close> fail with an error of kind NotFound for every sender. \<open>resolveDispute\<close>
  fails with NotFound when the sender is the owner; for every other sender its
  \<^verbatim>\<open>onlyOwner\<close> modifier runs first and it fails with an error of kind Unauthorized. In
  each case the ledger is as before.
\<close>

theorem existence_first_except_dispute:
  assumes "reachable s" and "invoiceCounter s \<le> i"
  shows "refused NotFound s (fundInvoice sender val i s) \<and>
         refused NotFound s (markInvoiceCompleted sender i s) \<and>
         refused NotFound s (releasePayment callee sender i s) \<and>
         refused NotFound s (cancelInvoice sender i s) \<and>
         (sender = owner s \<longrightarrow> refused NotFound s (resolveDispute callee sender i b s)) \<and>
         (sender \<noteq> owner s \<longrightarrow> refused Unauthorized s (resolveDispute callee sender i b s))"
proof -
  have "client (invoices s i) = 0" "freelancer (invoices s i) = 0"
    using sound_exists [OF reachable_sound [OF assms(1)], of i]
      sound_exists' [OF reachable_sound [OF assms(1)], of i] assms(2) by auto
  then show ?thesis
    by (simp add: fundInvoice_def markInvoiceCompleted_def releasePayment_def cancelInvoice_def
        resolveDispute_def Let_def refused_Inl)
qed

theorem existence_first_except_dispute_witness:
  "reachable fresh \<and> invoiceCounter fresh \<le> 99 \<and> owner fresh = 1 \<and>
   refused NotFound fresh (fundInvoice 2 10 99 fresh) \<and>
   refused NotFound fresh (resolveDispute Some 1 99 True fresh) \<and>
   refused Unauthorized fresh (resolveDispute Some 2 99 True fresh)"
proof -
  have c: "invoiceCounter fresh \<le> 99" by (simp add: fresh_def constructor_def)
  show ?thesis
    using reachable_fresh c
      existence_first_except_dispute [OF reachable_fresh c, of 2 10 Some True]
      existence_first_except_dispute [OF reachable_fresh c, of 1 10 Some True]
    by (simp add: fresh_def constructor_def)
qed

text \<open>
  The claim as stated fails: in the freshly deployed contract, whose owner is 1, the
  invoice 99 was never created, and \<open>resolveDispute\<close> called on it by the account 2 fails
  with \<open>OwnableUnauthorizedAccount\<close>, not with an error of kind NotFound.
\<close>

theorem existence_first_counterexample:
  "reachable fresh \<and> invoiceCounter fresh \<le> 99 \<and> client (invoices fresh 99) = 0 \<and>
   owner fresh \<noteq> 2 \<and>
   resolveDispute Some 2 99 True fresh = Inl (OwnableUnauthorizedAccount 2) \<and>
   \<not> fails_with NotFound (resolveDispute Some 2 99 True fresh)"
  using reachable_fresh by (simp add: fresh_def run_defs fails_with_def)

subsection \<open>Minting of ids\<close>

text \<open>
  C7. Monotonic ids. In every reachable ledger, that is after any calls whatsoever,
  creations among fundings, completions, releases, cancellations and dispute resolutions,
  the ids that the successful \<open>createInvoice\<close> calls have returned are 0, 1, 2, ... in
  call order, and \<open>getTotalInvoices\<close> returns their number N, which is also the number of
  invoices that exist, cancelled and paid ones included. The next successful
  \<open>createInvoice\<close> returns N and raises the total to N + 1, and a sequence of successful
  \<open>createInvoice\<close> calls returns N, N + 1, ... in call order; on a freshly constructed
  ledger N is 0.
\<close>

theorem monotonic_ids:
  assumes "reachable s"
  shows "minted s = map of_nat [0..<length (minted s)] \<and>
         unat (getTotalInvoices s) = length (minted s) \<and>
         getTotalInvoices s = of_nat (length (minted s)) \<and>
         card {i. client (invoices s i) \<noteq> 0} = length (minted s) \<and>
         (constructor this initialOwner = Inr s \<longrightarrow> minted s = []) \<and>
         (createInvoice sender fl amt descr s = Inr (i, s') \<longrightarrow>
            i = of_nat (length (minted s)) \<and> minted s' = minted s @ [i] \<and>
            unat (getTotalInvoices s') = length (minted s) + 1) \<and>
         (createInvoices calls s = Inr (ids, s'') \<longrightarrow>
            ids = map (\<lambda>k. of_nat (length (minted s) + k)) [0..<length calls] \<and>
            minted s'' = minted s @ ids \<and>
            unat (getTotalInvoices s'') = length (minted s) + length calls)"
proof -
  have m: "minted s = map of_nat [0..<unat (invoiceCounter s)]"
    by (rule reachable_minted [OF assms])
  then have n: "length (minted s) = unat (invoiceCounter s)" by simp
  have c: "invoiceCounter s = of_nat (length (minted s))" by (simp add: n)
  have 1: "minted s = map of_nat [0..<length (minted s)]" using m n by simp
  have 2: "unat (getTotalInvoices s) = length (minted s)" by (simp add: n getTotalInvoices_def)
  have 3: "getTotalInvoices s = of_nat (length (minted s))"
    using c by (simp add: getTotalInvoices_def)
  have "{i. client (invoices s i) \<noteq> 0} = {i. i < invoiceCounter s}"
    using sound_exists [OF reachable_sound [OF assms]] by blast
  then have 4: "card {i. client (invoices s i) \<noteq> 0} = length (minted s)"
    by (simp only: card_below n)
  have 5: "minted s = []" if "constructor this initialOwner = Inr s"
    using that by (auto simp: constructor_def split: if_splits)
  have 6: "i = of_nat (length (minted s)) \<and> minted s' = minted s @ [i] \<and>
      unat (getTotalInvoices s') = length (minted s) + 1"
    if "createInvoice sender fl amt descr s = Inr (i, s')"
  proof -
    from that have i: "i = invoiceCounter s" "invoiceCounter s \<noteq> - 1"
      "invoiceCounter s' = invoiceCounter s + 1" "minted s' = minted s @ [i]"
      by (auto simp: createInvoice_Inr)
    from i(1) c have a: "i = of_nat (length (minted s))" by (rule trans)
    from i(2,3) have "unat (invoiceCounter s') = Suc (unat (invoiceCounter s))"
      by (simp add: unat_succ)
    then have "unat (getTotalInvoices s') = length (minted s) + 1"
      by (simp only: getTotalInvoices_def n)
    with a i(4) show ?thesis by blast
  qed
  have 7: "ids = map (\<lambda>k. of_nat (length (minted s) + k)) [0..<length calls] \<and>
      minted s'' = minted s @ ids \<and>
      unat (getTotalInvoices s'') = length (minted s) + length calls"
    if "createInvoices calls s = Inr (ids, s'')"
  proof -
    from createInvoices_ids [OF that]
    have a: "ids = map (\<lambda>k. invoiceCounter s + of_nat k) [0..<length calls]"
      and b: "unat (invoiceCounter s'') = unat (invoiceCounter s) + length calls"
      by blast+
    have sh: "invoiceCounter s + of_nat k = of_nat (length (minted s) + k)" for k
      by (subst c) simp
    from a have "ids = map (\<lambda>k. of_nat (length (minted s) + k)) [0..<length calls]"
      by (simp only: sh)
    moreover from b have "unat (getTotalInvoices s'') = length (minted s) + length calls"
      by (simp only: getTotalInvoices_def n)
    ultimately show ?thesis using createInvoices_minted [OF that] by blast
  qed
  from 1 2 3 4 5 6 7 show ?thesis by blast
qed

text \<open>
  The scenario with creations among other transitions: the ids minted are 0, 1, 2 although
  invoice 0 is cancelled and invoice 1 paid, the total is 3, and the next creation
  returns 3. Three creations in a row on the fresh ledger return 0, 1, 2.
\<close>

theorem monotonic_ids_witness:
  "reachable mixed_ledger \<and> execs mixed_scenario fresh = mixed_ledger \<and>
   status (invoices mixed_ledger 0) = CANCELLED \<and> status (invoices mixed_ledger 1) = PAID \<and>
   minted mixed_ledger = [0, 1, 2] \<and> getTotalInvoices mixed_ledger = 3 \<and>
   card {i. client (invoices mixed_ledger i) \<noteq> 0} = 3 \<and>
   createInvoice 5 3 7 ''y'' mixed_ledger = Inr (3, four_created) \<and>
   minted four_created = [0, 1, 2, 3] \<and> unat (getTotalInvoices four_created) = 4 \<and>
   reachable fresh \<and> constructor 9 1 = Inr fresh \<and> minted fresh = [] \<and>
   createInvoices [(2, 3, 100, ''web work''), (2, 3, 50, ''logo''), (4, 3, 10, ''x'')] fresh =
     Inr ([0, 1, 2], three_created) \<and>
   minted three_created = [0, 1, 2] \<and> unat (getTotalInvoices three_created) = 3"
proof -
  note a = monotonic_ids [OF reachable_mixed, where sender = 5 and fl = 3 and amt = 7
    and descr = "''y''" and i = 3 and s' = four_created]
  note b = monotonic_ids [OF reachable_fresh, where this = 9 and initialOwner = 1
    and calls = "[(2, 3, 100, ''web work''), (2, 3, 50, ''logo''), (4, 3, 10, ''x'')]"
    and ids = "[0, 1, 2]" and s'' = three_created]
  have q: "status (invoices mixed_ledger 0) = CANCELLED" "status (invoices mixed_ledger 1) = PAID"
    "minted mixed_ledger = [0, 1, 2]"
    by (simp_all add: mixed_ledger_def)
  from a have "getTotalInvoices mixed_ledger = of_nat (length (minted mixed_ledger))" by blast
  then have t: "getTotalInvoices mixed_ledger = 3" by (simp add: q)
  from a have "card {i. client (invoices mixed_ledger i) \<noteq> 0} = length (minted mixed_ledger)"
    by blast
  then have k: "card {i. client (invoices mixed_ledger i) \<noteq> 0} = 3" by (simp add: q)
  from a four_created_result
  have "minted four_created = minted mixed_ledger @ [3]"
    and "unat (getTotalInvoices four_created) = length (minted mixed_ledger) + 1"
    by blast+
  then have f: "minted four_created = [0, 1, 2, 3]" "unat (getTotalInvoices four_created) = 4"
    by (simp_all add: q)
  from b constructor_fresh have e: "minted fresh = []" by blast
  from b three_created_result
  have "minted three_created = minted fresh @ [0, 1, 2]"
    and "unat (getTotalInvoices three_created) =
      length (minted fresh) +
      length [(2 :: address, 3 :: address, 100 :: uint256, ''web work''),
        (2, 3, 50, ''logo''), (4, 3, 10, ''x'')]"
    by blast+
  then have g: "minted three_created = [0, 1, 2]" "unat (getTotalInvoices three_created) = 3"
    by (simp_all add: e)
  from reachable_mixed mixed_scenario_result q t k four_created_result f reachable_fresh
    constructor_fresh e three_created_result g
  show ?thesis by blast
qed

subsection \<open>What a transition changes\<close>

text \<open>
  C8, as amended. A successful \<open>fundInvoice\<close>, \<open>markInvoiceCompleted\<close> or
  \<open>cancelInvoice\<close> changes only the status of the invoice it is called on: the other
  fields of that invoice, every other invoice, the counter and the owner are as before.
  A successful \<open>releasePayment\<close> or \<open>resolveDispute\<close> itself writes only that status,
  before the transfer: the ledger \<open>s1\<close> in which the recipient's code starts differs from
  the ledger before the call in nothing else, and nothing is written after the transfer.
  So the outcome is \<open>s1\<close> when the recipient only accepts the value; whatever else
  differs in the end was written by calls that the recipient made back into the contract.
  No invoice is ever deleted: in a reachable ledger an existing invoice still exists
  after any call, with the same id, client, freelancer, amount and description.
\<close>

theorem transitions_frame:
  "(fundInvoice sender val i s = Inr s' \<longrightarrow> only_status i s s') \<and>
   (markInvoiceCompleted sender i s = Inr s' \<longrightarrow> only_status i s s') \<and>
   (cancelInvoice sender i s = Inr s' \<longrightarrow> only_status i s s') \<and>
   (releasePayment callee sender i s = Inr s' \<longrightarrow>
      (\<exists>s1. releasePayment Some sender i s = Inr s1 \<and> only_status i s s1 \<and>
            (s' = s1 \<or> callee s1 = Some s'))) \<and>
   (resolveDispute callee sender i b s = Inr s' \<longrightarrow>
      (\<exists>s1. resolveDispute Some sender i b s = Inr s1 \<and> only_status i s s1 \<and>
            (s' = s1 \<or> callee s1 = Some s'))) \<and>
   (reachable s \<and> valid t \<and> i < invoiceCounter s \<longrightarrow>
      i < invoiceCounter (commit s (exec t s)) \<and>
      same_terms (invoices (commit s (exec t s)) i) (invoices s i))"
proof (intro conjI impI)
  show "only_status i s s'" if "fundInvoice sender val i s = Inr s'"
    using that by (auto simp: fundInvoice_Inr only_status_def)
  show "only_status i s s'" if "markInvoiceCompleted sender i s = Inr s'"
    using that by (auto simp: markInvoiceCompleted_Inr only_status_def)
  show "only_status i s s'" if "cancelInvoice sender i s = Inr s'"
    using that by (auto simp: cancelInvoice_Inr only_status_def)
  show "\<exists>s1. releasePayment Some sender i s = Inr s1 \<and> only_status i s s1 \<and>
            (s' = s1 \<or> callee s1 = Some s')" if r: "releasePayment callee sender i s = Inr s'"
  proof -
    from r obtain s1 where s1: "releasePayment Some sender i s = Inr s1"
      and "s' = s1 \<or> callee s1 = Some s'"
      by (subst (asm) releasePayment_split) (auto split: sum.splits if_splits option.splits)
    moreover from s1 have "only_status i s s1"
      by (auto simp: releasePayment_Inr only_status_def)
    ultimately show ?thesis by blast
  qed
  show "\<exists>s1. resolveDispute Some sender i b s = Inr s1 \<and> only_status i s s1 \<and>
            (s' = s1 \<or> callee s1 = Some s')" if r: "resolveDispute callee sender i b s = Inr s'"
  proof -
    from r obtain s1 where s1: "resolveDispute Some sender i b s = Inr s1"
      and "s' = s1 \<or> callee s1 = Some s'"
      by (subst (asm) resolveDispute_split) (auto split: sum.splits if_splits option.splits)
    moreover from s1 have "only_status i s s1"
      by (auto simp: resolveDispute_Inr only_status_def)
    ultimately show ?thesis by blast
  qed
  assume a: "reachable s \<and> valid t \<and> i < invoiceCounter s"
  then have "i < invoiceCounter (commit s (exec t s)) \<and>
      same_terms (invoices (commit s (exec t s)) i) (invoices s i)"
    using effects_keeps [OF commit_effects reachable_sound, of t s i] by simp
  then show "i < invoiceCounter (commit s (exec t s))"
    "same_terms (invoices (commit s (exec t s)) i) (invoices s i)" by simp_all
qed

text \<open>Releasing and cancelling in the scenarios.\<close>

theorem transitions_frame_witness:
  "releasePayment Some 2 0 completed_ledger = Inr (paid_ledger 0) \<and>
   only_status 0 completed_ledger (paid_ledger 0) \<and>
   cancelInvoice 2 0 created_ledger = Inr (write_status 0 CANCELLED Cancelled created_ledger) \<and>
   only_status 0 created_ledger (write_status 0 CANCELLED Cancelled created_ledger) \<and>
   reachable created_ledger \<and> valid (Tx 2 (CancelInvoice 0) Accept) \<and>
   0 < invoiceCounter created_ledger \<and>
   same_terms (invoices (commit created_ledger (exec (Tx 2 (CancelInvoice 0) Accept)
     created_ledger)) 0) (invoices created_ledger 0)"
proof -
  have r: "releasePayment Some 2 0 completed_ledger = Inr (paid_ledger 0)"
    by (simp add: completed_ledger_def paid_ledger_def run_defs)
  have c: "cancelInvoice 2 0 created_ledger =
      Inr (write_status 0 CANCELLED Cancelled created_ledger)"
    by (simp add: created_ledger_def cancelInvoice_def)
  have n: "0 < invoiceCounter created_ledger" by (simp add: created_ledger_def)
  have v: "valid (Tx 2 (CancelInvoice 0) Accept)" by simp
  show ?thesis
    using r c n v reachable_created
      transitions_frame [where s = completed_ledger and i = 0 and sender = 2
        and callee = Some and s' = "paid_ledger 0" and t = "Tx 2 (CancelInvoice 0) Accept"]
      transitions_frame [where s = created_ledger and i = 0 and sender = 2
        and s' = "write_status 0 CANCELLED Cancelled created_ledger"
        and t = "Tx 2 (CancelInvoice 0) Accept"]
    by auto
qed

text \<open>
  The claim as stated fails for \<open>releasePayment\<close>: when the freelancer of the completed
  invoice creates an invoice while it receives the payment, the release succeeds, and
  after it the counter is 2 instead of 1 and slot 1 holds a new invoice.
\<close>

theorem transitions_frame_counterexample:
  "valid creating_recipient \<and> reachable completed_ledger \<and>
   \<not> isl (exec creating_recipient completed_ledger) \<and>
   status (invoices (commit completed_ledger (exec creating_recipient completed_ledger)) 0) =
     PAID \<and>
   invoiceCounter completed_ledger = 1 \<and>
   invoiceCounter (commit completed_ledger (exec creating_recipient completed_ledger)) = 2 \<and>
   client (invoices completed_ledger 1) = 0 \<and>
   client (invoices (commit completed_ledger (exec creating_recipient completed_ledger)) 1) = 3 \<and>
   \<not> only_status 0 completed_ledger
     (commit completed_ledger (exec creating_recipient completed_ledger))"
  using reachable_completed
  by (simp add: creating_recipient_def completed_ledger_def only_status_def run_defs)

subsection \<open>The well-formed ledger\<close>

text \<open>
  C9. In every reachable ledger, each slot below the invoice counter holds an invoice
  whose id is its key, whose client and freelancer are not the zero address, whose amount
  is positive and whose description is not empty; each slot at or above the counter has
  the zero address as client. So the test \<^verbatim>\<open>client != address(0)\<close> holds exactly for
  the invoices that were created.
\<close>

theorem ledger_wellformed:
  assumes "reachable s"
  shows "(i < invoiceCounter s \<longrightarrow>
            invoiceId (invoices s i) = i \<and> client (invoices s i) \<noteq> 0 \<and>
            freelancer (invoices s i) \<noteq> 0 \<and> 0 < amount (invoices s i) \<and>
            description (invoices s i) \<noteq> []) \<and>
         (invoiceCounter s \<le> i \<longrightarrow> client (invoices s i) = 0) \<and>
         (client (invoices s i) \<noteq> 0 \<longleftrightarrow> i < invoiceCounter s)"
proof -
  have "slot_ok s i" using reachable_sound [OF assms] by (simp add: sound_def)
  then show ?thesis
    by (auto simp: slot_ok_def emptyInvoice_def word_neq_0_conv split: if_splits)
qed

theorem ledger_wellformed_witness:
  "reachable created_ledger \<and> invoiceCounter created_ledger = 1 \<and>
   invoiceId (invoices created_ledger 0) = 0 \<and> client (invoices created_ledger 0) = 2 \<and>
   freelancer (invoices created_ledger 0) = 3 \<and> amount (invoices created_ledger 0) = 100 \<and>
   client (invoices created_ledger 1) = 0"
  using reachable_created ledger_wellformed [OF reachable_created, of 0]
    ledger_wellformed [OF reachable_created, of 1]
  by (simp add: created_ledger_def emptyInvoice_def)

subsection \<open>Self-dealing\<close>

text \<open>
  C10. Self-dealing is permitted. \<open>createInvoice\<close> does not require the freelancer to
  differ from the sender: on the freshly deployed contract any account \<open>c\<close> can create an
  invoice with itself as freelancer, for any positive amount and non-empty description;
  the invoice has \<open>c\<close> as client and as freelancer, and \<open>c\<close> alone funds it, marks it
  completed and releases the payment, after which the invoice is PAID and the one payout
  made for it went to \<open>c\<close>. The contract held nothing, holds the amount once the invoice
  is funded, and holds nothing again once the payment is released: the amount has left
  it for \<open>c\<close> (unless \<open>c\<close> is the contract itself, which then keeps what it sent itself).
\<close>

theorem self_dealing_permitted:
  assumes "constructor this initialOwner = Inr s0"
    and "c \<noteq> 0" and "0 < amt" and "descr \<noteq> []"
  shows "\<exists>s1 s2 s3 s4.
           createInvoice c c amt descr s0 = Inr (0, s1) \<and>
           client (invoices s1 0) = c \<and> freelancer (invoices s1 0) = c \<and>
           fundInvoice c amt 0 s1 = Inr s2 \<and>
           markInvoiceCompleted c 0 s2 = Inr s3 \<and>
           releasePayment Some c 0 s3 = Inr s4 \<and>
           status (invoices s4 0) = PAID \<and> payouts s4 0 = [(c, amt)] \<and>
           balance s0 = 0 \<and> balance s3 = unat amt \<and>
           balance s4 = (if c = this then unat amt else 0)"
proof -
  from assms(1) have s0: "invoiceCounter s0 = 0" "invoices s0 0 = emptyInvoice"
    "payouts s0 0 = []" "balance s0 = 0" "self s0 = this"
    by (auto simp: constructor_def split: if_splits)
  define s1 where "s1 = s0\<lparr>invoiceCounter := invoiceCounter s0 + 1,
            invoices := (invoices s0)(0 :=
              \<lparr>invoiceId = 0, client = c, freelancer = c, amount = amt,
               description = descr, status = CREATED\<rparr>),
            trail := (trail s0)(0 := trail s0 0 @ [(Made, CREATED)]),
            minted := minted s0 @ [0]\<rparr>"
  define s2 where "s2 = write_status 0 FUNDED Funded (s1\<lparr>balance := balance s1 + unat amt\<rparr>)"
  define s3 where "s3 = write_status 0 COMPLETED Completed s2"
  define s4 where "s4 = pay 0 c amt (write_status 0 PAID Released s3)"
  have 1: "createInvoice c c amt descr s0 = Inr (0, s1)"
    using assms(2-4) s0 by (simp add: createInvoice_Inr s1_def word_neq_0_conv)
  have 2: "fundInvoice c amt 0 s1 = Inr s2"
    using assms(2) by (simp add: fundInvoice_Inr s1_def s2_def)
  have 3: "markInvoiceCompleted c 0 s2 = Inr s3"
    using assms(2) by (simp add: markInvoiceCompleted_Inr s1_def s2_def s3_def)
  have 4: "releasePayment Some c 0 s3 = Inr s4"
    using assms(2) by (simp add: releasePayment_Inr s1_def s2_def s3_def s4_def)
  have 5: "status (invoices s4 0) = PAID" "payouts s4 0 = [(c, amt)]"
    "client (invoices s1 0) = c" "freelancer (invoices s1 0) = c"
    using s0 by (simp_all add: s1_def s2_def s3_def s4_def)
  have 6: "balance s3 = unat amt" "balance s4 = (if c = this then unat amt else 0)"
    using s0 by (simp_all add: s1_def s2_def s3_def s4_def pay_def write_status_def)
  from 1 2 3 4 5 6 s0(4) show ?thesis by blast
qed

theorem self_dealing_permitted_witness:
  "constructor 9 1 = Inr fresh \<and> (2 :: address) \<noteq> 0 \<and> (0 :: uint256) < 100 \<and>
   ''web work'' \<noteq> [] \<and>
   (\<exists>s1 s2 s3 s4.
      createInvoice 2 2 100 ''web work'' fresh = Inr (0, s1) \<and>
      client (invoices s1 0) = 2 \<and> freelancer (invoices s1 0) = 2 \<and>
      fundInvoice 2 100 0 s1 = Inr s2 \<and>
      markInvoiceCompleted 2 0 s2 = Inr s3 \<and>
      releasePayment Some 2 0 s3 = Inr s4 \<and>
      status (invoices s4 0) = PAID \<and> payouts s4 0 = [(2, 100)] \<and>
      balance fresh = 0 \<and> balance s3 = 100 \<and> balance s4 = 0)"
proof -
  have h: "(2 :: address) \<noteq> 0" "(0 :: uint256) < 100" "''web work'' \<noteq> []" by simp_all
  show ?thesis
    using constructor_fresh h self_dealing_permitted [OF constructor_fresh h] by simp
qed

end
